theory Spec2Isabelle
  imports Complex_Main
begin

section \<open>Data model\<close>

text \<open>
  The memory index of SimpleMem (\<^verbatim>\<open>src/stages/indexing.ts\<close>), its scorers
  (\<^verbatim>\<open>src/utils/similarity.ts\<close>) and the retrieval controller and answer generator
  (\<^verbatim>\<open>src/stages/retrieval.ts\<close>), as HOL functions.

  Conventions of the embedding:
  \<^item> a JavaScript number that holds a score, a weight or a vector component is a
    \<^typ>\<open>real\<close>: rounding, overflow and NaN of IEEE doubles are not modelled; a number
    that holds a count or a depth is an \<^typ>\<open>int\<close>;
  \<^item> an optional property is an \<^typ>\<open>'a option\<close>, \<open>None\<close> standing for
    \<^verbatim>\<open>undefined\<close>;
  \<^item> objects are values: a memory unit stored in the index is a copy, where the
    source stores a reference;
  \<^item> a rejected promise or a thrown exception is the \<open>Inl\<close> of a sum.
\<close>

type_synonym vec = "real list"

text \<open>
  What a call can throw: the rejection of the embedding provider or of the language
  model, passed on as it is (\<open>exn\<close> is the value the collaborator threw), the
  dimension error of \<^verbatim>\<open>cosineSimilarity\<close>, and the \<^verbatim>\<open>TypeError\<close> of a property
  read on \<^verbatim>\<open>undefined\<close>.
\<close>

type_synonym exn = string

datatype error =
    EmbedRejected exn
  | OracleRejected exn
  | DimensionMismatch nat nat
  | TypeError

datatype Salience = High | Medium | Low

text \<open>
  Modelled from the spec: the declaration of \<^verbatim>\<open>MemoryUnit\<close>
  (\<^verbatim>\<open>src/types/index.ts\<close>) with the fields of section 3; the fields \<^verbatim>\<open>id\<close> and \<^verbatim>\<open>keywords\<close> are
  \<open>unit_id\<close> and \<open>unit_keywords\<close> here.
\<close>

record MemoryUnit =
  unit_id :: string
  content :: string
  unit_keywords :: "string list"
  persons :: "string list"
  entities :: "string list"
  timestamp :: "string option"
  location :: "string option"
  topic :: "string option"
  salience :: Salience
  embedding :: "vec option"

text \<open>
  Modelled from the spec: the declaration of \<^verbatim>\<open>QueryFilter\<close>; the range is the
  object \<^verbatim>\<open>{start?, end?}\<close> that query analysis produces.
\<close>

record QueryFilter =
  f_persons :: "string list option"
  f_entities :: "string list option"
  timestampRange :: "(string option \<times> string option) option"
  f_location :: "string option"
  f_topic :: "string option"

datatype MatchType = Semantic | Lexical | Symbolic | Hybrid

text \<open>
  A search result. The unit is optional because \<^verbatim>\<open>keywordSearch\<close> reads
  \<^verbatim>\<open>unitsArray[index]\<close>, which is \<^verbatim>\<open>undefined\<close> out of range.
\<close>

record SearchResult =
  unit :: "MemoryUnit option"
  score :: real
  matchType :: MatchType

section \<open>Strings\<close>

text \<open>
  \<^verbatim>\<open>toLowerCase\<close> on the ASCII letters, \<^verbatim>\<open>includes\<close> as a substring test
  (\<open>str_includes\<close>) and the
  truth value of an optional string (\<^verbatim>\<open>undefined\<close> and the empty string are falsy).
\<close>

definition lower_char :: "char \<Rightarrow> char" where
  "lower_char c =
     (let n = (of_char c :: nat)
      in if 65 \<le> n \<and> n \<le> 90 then char_of (n + 32) else c)"

definition toLowerCase :: "string \<Rightarrow> string" where
  "toLowerCase s = map lower_char s"

fun startsWith :: "string \<Rightarrow> string \<Rightarrow> bool" where
  "startsWith s [] = True"
| "startsWith [] (p # ps) = False"
| "startsWith (c # cs) (p # ps) = (c = p \<and> startsWith cs ps)"

fun str_includes :: "string \<Rightarrow> string \<Rightarrow> bool" where
  "str_includes [] p = (p = [])"
| "str_includes (c # cs) p = (startsWith (c # cs) p \<or> str_includes cs p)"

definition truthy :: "string option \<Rightarrow> bool" where
  "truthy s = (case s of None \<Rightarrow> False | Some t \<Rightarrow> t \<noteq> [])"

section \<open>Temporal range\<close>

text \<open>
  \<^verbatim>\<open>isWithinRange\<close> of \<^verbatim>\<open>src/utils/temporal.ts\<close>. The date library is a
  parameter: \<open>dayjs s\<close> is the instant that the library parses from \<open>s\<close>, in
  milliseconds, or \<open>None\<close> for an invalid date. Every comparison with an invalid
  date is false.
\<close>

definition isAfter :: "int \<Rightarrow> int option \<Rightarrow> bool" where
  "isAfter t other = (case other of None \<Rightarrow> False | Some s \<Rightarrow> s < t)"

definition isBefore :: "int \<Rightarrow> int option \<Rightarrow> bool" where
  "isBefore t other = (case other of None \<Rightarrow> False | Some s \<Rightarrow> t < s)"

definition isSame :: "int \<Rightarrow> int option \<Rightarrow> bool" where
  "isSame t other = (case other of None \<Rightarrow> False | Some s \<Rightarrow> t = s)"

definition isWithinRange ::
  "(string \<Rightarrow> int option) \<Rightarrow> string \<Rightarrow> string \<Rightarrow> string \<Rightarrow> bool" where
  "isWithinRange dayjs ts start end =
     (case dayjs ts of
        None \<Rightarrow> False
      | Some t \<Rightarrow>
          (isAfter t (dayjs start) \<or> isSame t (dayjs start)) \<and>
          (isBefore t (dayjs end) \<or> isSame t (dayjs end)))"

section \<open>The symbolic layer: matchesFilter\<close>

definition hasMatch :: "string list \<Rightarrow> string list \<Rightarrow> bool" where
  "hasMatch wanted have =
     list_ex (\<lambda>p. list_ex (\<lambda>up. str_includes (toLowerCase up) (toLowerCase p)) have) wanted"

definition listFails :: "string list option \<Rightarrow> string list \<Rightarrow> bool" where
  "listFails wanted have =
     (case wanted of
        None \<Rightarrow> False
      | Some ps \<Rightarrow> length ps > 0 \<and> \<not> hasMatch ps have)"

definition rangeFails ::
  "(string \<Rightarrow> int option) \<Rightarrow> (string option \<times> string option) option \<Rightarrow> string option \<Rightarrow> bool" where
  "rangeFails dayjs rng ts =
     (case rng of
        None \<Rightarrow> False
      | Some (start, end) \<Rightarrow>
          (case ts of
             None \<Rightarrow> False
           | Some t \<Rightarrow>
               t \<noteq> [] \<and>
               (case start of
                  None \<Rightarrow> False
                | Some s \<Rightarrow>
                    s \<noteq> [] \<and>
                    (case end of
                       None \<Rightarrow> False
                     | Some e \<Rightarrow> e \<noteq> [] \<and> \<not> isWithinRange dayjs t s e))))"

definition textFails :: "string option \<Rightarrow> string option \<Rightarrow> bool" where
  "textFails wanted have =
     (case wanted of
        None \<Rightarrow> False
      | Some w \<Rightarrow>
          w \<noteq> [] \<and>
          (case have of
             None \<Rightarrow> False
           | Some h \<Rightarrow> h \<noteq> [] \<and> \<not> str_includes (toLowerCase h) (toLowerCase w)))"

text \<open>
  \<^verbatim>\<open>HybridIndex.matchesFilter\<close>: five guarded checks in the order of the source, each
  returning false when it fails.
\<close>

definition matchesFilter :: "(string \<Rightarrow> int option) \<Rightarrow> MemoryUnit \<Rightarrow> QueryFilter \<Rightarrow> bool" where
  "matchesFilter dayjs u f =
     (if listFails (f_persons f) (persons u) then False
      else if listFails (f_entities f) (entities u) then False
      else if rangeFails dayjs (timestampRange f) (timestamp u) then False
      else if textFails (f_location f) (location u) then False
      else if textFails (f_topic f) (topic u) then False
      else True)"

section \<open>Arrays and insertion-ordered maps\<close>

text \<open>
  \<^verbatim>\<open>Array.prototype.slice(0, k)\<close> for an integer \<open>k\<close>: a negative end counts from
  the end of the array.
\<close>

definition slice0 :: "'a list \<Rightarrow> int \<Rightarrow> 'a list" where
  "slice0 xs k =
     (if k < 0 then take (nat (int (length xs) + k)) xs else take (nat k) xs)"

text \<open>An array read: \<^verbatim>\<open>undefined\<close> out of range.\<close>

fun at_index :: "'a list \<Rightarrow> nat \<Rightarrow> 'a option" where
  "at_index [] i = None"
| "at_index (x # xs) 0 = Some x"
| "at_index (x # xs) (Suc i) = at_index xs i"

text \<open>
  A JavaScript \<^verbatim>\<open>Map\<close> is an association list in insertion order with distinct
  keys: \<^verbatim>\<open>set\<close> on a key that is present replaces the value where it stands, on a
  new key it appends. \<^verbatim>\<open>get\<close> is \<^const>\<open>map_of\<close>, \<^verbatim>\<open>values()\<close> is
  \<open>map snd\<close>, \<^verbatim>\<open>keys()\<close> is \<open>map fst\<close>.
\<close>

fun map_set :: "'k \<Rightarrow> 'v \<Rightarrow> ('k \<times> 'v) list \<Rightarrow> ('k \<times> 'v) list" where
  "map_set k v [] = [(k, v)]"
| "map_set k v (p # ps) = (if fst p = k then (k, v) # ps else p # map_set k v ps)"

definition map_delete :: "'k \<Rightarrow> ('k \<times> 'v) list \<Rightarrow> ('k \<times> 'v) list" where
  "map_delete k ps = filter (\<lambda>p. fst p \<noteq> k) ps"

text \<open>\<^verbatim>\<open>new Set(xs)\<close>: the elements in the order of their first occurrence.\<close>

definition set_add :: "'a \<Rightarrow> 'a list \<Rightarrow> 'a list" where
  "set_add x seen = (if x \<in> set seen then seen else seen @ [x])"

definition new_Set :: "'a list \<Rightarrow> 'a list" where
  "new_Set xs = fold set_add xs []"

text \<open>
  \<^verbatim>\<open>xs.sort((a, b) => b.score - a.score)\<close>: the sort of the language is stable, and
  on real scores the comparator is a total preorder, so the result is the stable sort
  by decreasing score.
\<close>

definition sortByScoreDesc :: "('a \<Rightarrow> real) \<Rightarrow> 'a list \<Rightarrow> 'a list" where
  "sortByScoreDesc f xs = sort_key (\<lambda>x. - f x) xs"

section \<open>Vector scorer\<close>

text \<open>
  \<^verbatim>\<open>cosineSimilarity\<close>. The first argument is optional because \<^verbatim>\<open>semanticSearch\<close>
  passes the first element of the provider's answer, which is \<^verbatim>\<open>undefined\<close> when
  the answer is empty; reading its length then throws a \<^verbatim>\<open>TypeError\<close>.
\<close>

definition dotProduct :: "vec \<Rightarrow> vec \<Rightarrow> real" where
  "dotProduct a b = foldl (\<lambda>acc (x, y). acc + x * y) 0 (zip a b)"

definition cosineSimilarity :: "vec option \<Rightarrow> vec \<Rightarrow> error + real" where
  "cosineSimilarity a' b =
     (case a' of
        None \<Rightarrow> Inl TypeError
      | Some a \<Rightarrow>
          if length a \<noteq> length b then Inl (DimensionMismatch (length a) (length b))
          else
            let normA = sqrt (dotProduct a a);
                normB = sqrt (dotProduct b b)
            in if normA = 0 \<or> normB = 0 then Inr 0
               else Inr (dotProduct a b / (normA * normB)))"

section \<open>Lexical scorer (BM25)\<close>

record BM25Scorer =
  bm_k1 :: real
  bm_b :: real
  documents :: "string list list"
  avgDocLength :: real
  idf :: "string \<Rightarrow> real option"

text \<open>\<^verbatim>\<open>new BM25Scorer(params)\<close>, and the call without parameters.\<close>

definition new_BM25Scorer_with :: "real option \<Rightarrow> real option \<Rightarrow> BM25Scorer" where
  "new_BM25Scorer_with k1 b =
     \<lparr>bm_k1 = (case k1 of None \<Rightarrow> 12 / 10 | Some x \<Rightarrow> x),
      bm_b = (case b of None \<Rightarrow> 75 / 100 | Some x \<Rightarrow> x),
      documents = [],
      avgDocLength = 0,
      idf = (\<lambda>t. None)\<rparr>"

definition new_BM25Scorer :: BM25Scorer where
  "new_BM25Scorer = new_BM25Scorer_with None None"

text \<open>
  \<^verbatim>\<open>tokenize\<close>: lower case, every character outside \<^verbatim>\<open>\w\<close> and \<^verbatim>\<open>\s\<close> becomes a
  space, split at runs of white space, empty tokens dropped (ASCII classes).
\<close>

definition is_word_char :: "char \<Rightarrow> bool" where
  "is_word_char c =
     (let n = (of_char c :: nat)
      in (48 \<le> n \<and> n \<le> 57) \<or> (65 \<le> n \<and> n \<le> 90) \<or> n = 95 \<or> (97 \<le> n \<and> n \<le> 122))"

definition is_space_char :: "char \<Rightarrow> bool" where
  "is_space_char c =
     (let n = (of_char c :: nat) in (9 \<le> n \<and> n \<le> 13) \<or> n = 32)"

fun split_ws :: "string \<Rightarrow> string \<Rightarrow> string list" where
  "split_ws cur [] = (if cur = [] then [] else [cur])"
| "split_ws cur (c # cs) =
     (if is_space_char c
      then (if cur = [] then split_ws [] cs else cur # split_ws [] cs)
      else split_ws (cur @ [c]) cs)"

definition tokenize :: "string \<Rightarrow> string list" where
  "tokenize text =
     split_ws []
       (map (\<lambda>c. if is_word_char c \<or> is_space_char c then c else CHR '' '')
          (toLowerCase text))"

text \<open>
  \<^verbatim>\<open>addDocuments\<close>. The document-frequency map of the source has a key for each
  term of the corpus, with the number of documents that contain it; the loop over it
  sets the idf of these terms and leaves every older entry of \<^verbatim>\<open>this.idf\<close> as it
  was. \<^verbatim>\<open>totalLength / N || 1\<close> is 1 when the quotient is 0 or NaN.
\<close>

definition docFreq :: "string list list \<Rightarrow> string \<Rightarrow> nat" where
  "docFreq docs t = length (filter (\<lambda>d. t \<in> set d) docs)"

definition idf_value :: "nat \<Rightarrow> nat \<Rightarrow> real" where
  "idf_value N df = ln ((real N - real df + 1 / 2) / (real df + 1 / 2) + 1)"

definition addDocuments :: "BM25Scorer \<Rightarrow> string list \<Rightarrow> BM25Scorer" where
  "addDocuments bm docs =
     (let toks = map tokenize docs;
          totalLength = foldl (\<lambda>sum doc. sum + length doc) 0 toks;
          N = length toks
      in bm\<lparr>documents := toks,
            avgDocLength := (if N = 0 \<or> totalLength = 0 then 1 else real totalLength / real N),
            idf := (\<lambda>t. if docFreq toks t > 0 then Some (idf_value N (docFreq toks t))
                        else idf bm t)\<rparr>)"

text \<open>
  \<^verbatim>\<open>score\<close>: for one document, the sum over the query terms, in order, of the term
  score; \<open>termScore\<close> is the body of the inner loop, 0 when the guard
  \<^verbatim>\<open>tf > 0 && idf > 0\<close> fails.
\<close>

definition termFreq :: "string list \<Rightarrow> string \<Rightarrow> nat" where
  "termFreq doc t = count_list doc t"

definition termScore :: "BM25Scorer \<Rightarrow> string list \<Rightarrow> string \<Rightarrow> real" where
  "termScore bm doc t =
     (let docLength = real (length doc);
          tf = real (termFreq doc t);
          idf_t = (case idf bm t of None \<Rightarrow> 0 | Some v \<Rightarrow> v)
      in if tf > 0 \<and> idf_t > 0
         then
           let numerator = tf * (bm_k1 bm + 1);
               denominator =
                 tf + bm_k1 bm * (1 - bm_b bm + bm_b bm * (docLength / avgDocLength bm))
           in idf_t * (numerator / denominator)
         else 0)"

definition docScore :: "BM25Scorer \<Rightarrow> string list \<Rightarrow> string list \<Rightarrow> real" where
  "docScore bm queryTerms doc = foldl (\<lambda>score t. score + termScore bm doc t) 0 queryTerms"

definition bm25_score :: "BM25Scorer \<Rightarrow> string \<Rightarrow> real list" where
  "bm25_score bm query = map (docScore bm (tokenize query)) (documents bm)"

text \<open>\<^verbatim>\<open>topK\<close>: pairs of document index and score, positive scores only.\<close>

definition bm25_topK :: "BM25Scorer \<Rightarrow> string \<Rightarrow> int \<Rightarrow> (nat \<times> real) list" where
  "bm25_topK bm query k =
     (let scores = bm25_score bm query
      in slice0
           (sortByScoreDesc snd
              (filter (\<lambda>p. snd p > 0) (zip [0 ..< length scores] scores)))
           k)"

section \<open>Hybrid index\<close>

record IndexingConfig =
  semanticTopK :: int
  keywordTopK :: int
  structuredTopK :: int
  semanticWeight :: real
  lexicalWeight :: real
  symbolicWeight :: real

definition DEFAULT_INDEXING_CONFIG :: IndexingConfig where
  "DEFAULT_INDEXING_CONFIG =
     \<lparr>semanticTopK = 25, keywordTopK = 5, structuredTopK = 5,
      semanticWeight = 6 / 10, lexicalWeight = 3 / 10, symbolicWeight = 1 / 10\<rparr>"

text \<open>
  The embedding provider, \<^verbatim>\<open>embed(texts)\<close>: its answer or its rejection. The answer
  may be shorter than the request; a missing entry reads as \<^verbatim>\<open>undefined\<close>.
\<close>

type_synonym EmbeddingProvider = "string list \<Rightarrow> exn + vec list"

record HybridIndex =
  units :: "(string \<times> MemoryUnit) list"
  bm25 :: BM25Scorer
  config :: IndexingConfig
  needsRebuild :: bool

definition new_HybridIndex :: "IndexingConfig \<Rightarrow> HybridIndex" where
  "new_HybridIndex cfg =
     \<lparr>units = [], bm25 = new_BM25Scorer, config = cfg, needsRebuild = False\<rparr>"

text \<open>
  \<^verbatim>\<open>addUnits\<close>. \<open>attachEmbeddings\<close> is the loop that gives the i-th unit without an
  embedding the i-th vector of the answer; \<open>upsertAll\<close> is the loop of
  \<^verbatim>\<open>this.units.set(unit.id, unit)\<close>. The result is the outcome, the units of the
  caller after the call, and the index after the call. When the provider rejects,
  the exception leaves the function before any assignment.
\<close>

definition hasEmbedding :: "MemoryUnit \<Rightarrow> bool" where
  "hasEmbedding u = (embedding u \<noteq> None)"

fun attachEmbeddings :: "MemoryUnit list \<Rightarrow> vec list \<Rightarrow> MemoryUnit list" where
  "attachEmbeddings [] es = []"
| "attachEmbeddings (u # us) es =
     (if hasEmbedding u then u # attachEmbeddings us es
      else u\<lparr>embedding := at_index es 0\<rparr> # attachEmbeddings us (drop 1 es))"

definition upsertAll ::
  "MemoryUnit list \<Rightarrow> (string \<times> MemoryUnit) list \<Rightarrow> (string \<times> MemoryUnit) list" where
  "upsertAll us m = fold (\<lambda>u. map_set (unit_id u) u) us m"

definition addUnits ::
  "EmbeddingProvider \<Rightarrow> HybridIndex \<Rightarrow> MemoryUnit list
     \<Rightarrow> (error + unit) \<times> MemoryUnit list \<times> HybridIndex" where
  "addUnits emb idx us =
     (let unitsNeedingEmbeddings = filter (\<lambda>u. \<not> hasEmbedding u) us
      in if length unitsNeedingEmbeddings > 0
         then
           (case emb (map content unitsNeedingEmbeddings) of
              Inl x \<Rightarrow> (Inl (EmbedRejected x), us, idx)
            | Inr embeddings \<Rightarrow>
                let us' = attachEmbeddings us embeddings
                in (Inr (), us',
                    idx\<lparr>units := upsertAll us' (units idx), needsRebuild := True\<rparr>))
         else (Inr (), us, idx\<lparr>units := upsertAll us (units idx), needsRebuild := True\<rparr>))"

definition removeUnit :: "HybridIndex \<Rightarrow> string \<Rightarrow> HybridIndex" where
  "removeUnit idx i = idx\<lparr>units := map_delete i (units idx), needsRebuild := True\<rparr>"

definition rebuildLexicalIndex :: "HybridIndex \<Rightarrow> HybridIndex" where
  "rebuildLexicalIndex idx =
     idx\<lparr>bm25 := addDocuments (bm25 idx) (map (\<lambda>u. content u) (map snd (units idx))),
         needsRebuild := False\<rparr>"

definition getAllUnits :: "HybridIndex \<Rightarrow> MemoryUnit list" where
  "getAllUnits idx = map snd (units idx)"

definition index_size :: "HybridIndex \<Rightarrow> nat" where
  "index_size idx = length (units idx)"

definition clear :: "HybridIndex \<Rightarrow> HybridIndex" where
  "clear idx = idx\<lparr>units := [], bm25 := new_BM25Scorer, needsRebuild := False\<rparr>"

text \<open>
  \<^verbatim>\<open>semanticSearch\<close>: one call of the provider for the query, then the loop over the
  units, which skips a unit without embedding and stops at the first exception of
  \<^verbatim>\<open>cosineSimilarity\<close>.
\<close>

fun scoreUnits :: "vec option \<Rightarrow> MemoryUnit list \<Rightarrow> error + SearchResult list" where
  "scoreUnits q [] = Inr []"
| "scoreUnits q (u # us) =
     (case embedding u of
        None \<Rightarrow> scoreUnits q us
      | Some e \<Rightarrow>
          (case cosineSimilarity q e of
             Inl err \<Rightarrow> Inl err
           | Inr s \<Rightarrow>
               (case scoreUnits q us of
                  Inl err \<Rightarrow> Inl err
                | Inr rs \<Rightarrow> Inr (\<lparr>unit = Some u, score = s, matchType = Semantic\<rparr> # rs))))"

definition semanticSearch ::
  "EmbeddingProvider \<Rightarrow> HybridIndex \<Rightarrow> string \<Rightarrow> int option \<Rightarrow> error + SearchResult list" where
  "semanticSearch emb idx query topK =
     (let k = (case topK of None \<Rightarrow> semanticTopK (config idx) | Some t \<Rightarrow> t)
      in case emb [query] of
           Inl x \<Rightarrow> Inl (EmbedRejected x)
         | Inr answer \<Rightarrow>
             (case scoreUnits (at_index answer 0) (map snd (units idx)) of
                Inl err \<Rightarrow> Inl err
              | Inr results \<Rightarrow> Inr (slice0 (sortByScoreDesc score results) k)))"

text \<open>
  \<^verbatim>\<open>keywordSearch\<close> rebuilds the lexical index when it is dirty, so it returns the
  index too.
\<close>

definition keywordSearch ::
  "HybridIndex \<Rightarrow> string \<Rightarrow> int option \<Rightarrow> SearchResult list \<times> HybridIndex" where
  "keywordSearch idx query topK =
     (let k = (case topK of None \<Rightarrow> keywordTopK (config idx) | Some t \<Rightarrow> t);
          idx' = (if needsRebuild idx then rebuildLexicalIndex idx else idx);
          unitsArray = map snd (units idx');
          topResults = bm25_topK (bm25 idx') query k
      in (map (\<lambda>(index, s). \<lparr>unit = at_index unitsArray index, score = s, matchType = Lexical\<rparr>)
            topResults,
          idx'))"

definition structuredSearch ::
  "(string \<Rightarrow> int option) \<Rightarrow> HybridIndex \<Rightarrow> QueryFilter \<Rightarrow> int option \<Rightarrow> SearchResult list" where
  "structuredSearch dayjs idx f topK =
     (let k = (case topK of None \<Rightarrow> structuredTopK (config idx) | Some t \<Rightarrow> t);
          results =
            map (\<lambda>u. \<lparr>unit = Some u, score = 1, matchType = Symbolic\<rparr>)
              (filter (\<lambda>u. matchesFilter dayjs u f) (map snd (units idx)))
      in slice0 results k)"

text \<open>\<^verbatim>\<open>computeHybridScore\<close> of \<^verbatim>\<open>src/utils/similarity.ts\<close>.\<close>

definition computeHybridScore :: "real \<Rightarrow> real \<Rightarrow> bool \<Rightarrow> real \<Rightarrow> real \<Rightarrow> real \<Rightarrow> real" where
  "computeHybridScore semanticScore lexicalScore matchesConstraints alpha beta gamma =
     (let symbolicBonus = (if matchesConstraints then gamma else 0)
      in alpha * semanticScore + beta * lexicalScore + symbolicBonus)"

text \<open>
  \<^verbatim>\<open>hybridSearch\<close>. \<open>collectScores\<close> is a loop \<^verbatim>\<open>scores.set(r.unit.id, ...)\<close>, which
  throws when a result has no unit; \<open>hybridResult\<close> is the body of the loop over the
  union of the ids, \<open>None\<close> standing for \<^verbatim>\<open>continue\<close>. The keyword search runs, and
  rebuilds the lexical index, before the semantic search is awaited, so the index it
  leaves is returned in every case.
\<close>

definition math_max1 :: "real list \<Rightarrow> real" where
  "math_max1 xs = foldl max 1 xs"

fun collectScores ::
  "(real \<Rightarrow> real) \<Rightarrow> SearchResult list \<Rightarrow> (string \<times> real) list \<Rightarrow> error + (string \<times> real) list" where
  "collectScores g [] m = Inr m"
| "collectScores g (r # rs) m =
     (case unit r of
        None \<Rightarrow> Inl TypeError
      | Some u \<Rightarrow> collectScores g rs (map_set (unit_id u) (g (score r)) m))"

definition hybridResult ::
  "(string \<Rightarrow> int option) \<Rightarrow> HybridIndex \<Rightarrow> QueryFilter option
     \<Rightarrow> (string \<times> real) list \<Rightarrow> (string \<times> real) list \<Rightarrow> string \<Rightarrow> SearchResult option" where
  "hybridResult dayjs idx flt semanticScores lexicalScores unitId =
     (case map_of (units idx) unitId of
        None \<Rightarrow> None
      | Some u \<Rightarrow>
          let semanticScore = (case map_of semanticScores unitId of None \<Rightarrow> 0 | Some x \<Rightarrow> x);
              lexicalScore = (case map_of lexicalScores unitId of None \<Rightarrow> 0 | Some x \<Rightarrow> x);
              matchesConstraints = (case flt of None \<Rightarrow> True | Some f \<Rightarrow> matchesFilter dayjs u f);
              hybridScore =
                computeHybridScore semanticScore lexicalScore matchesConstraints
                  (semanticWeight (config idx)) (lexicalWeight (config idx))
                  (symbolicWeight (config idx))
          in Some \<lparr>unit = Some u, score = hybridScore, matchType = Hybrid\<rparr>)"

definition hybridSearch ::
  "EmbeddingProvider \<Rightarrow> (string \<Rightarrow> int option) \<Rightarrow> HybridIndex \<Rightarrow> string
     \<Rightarrow> QueryFilter option \<Rightarrow> int option \<Rightarrow> (error + SearchResult list) \<times> HybridIndex" where
  "hybridSearch emb dayjs idx query flt topK =
     (let k = (case topK of None \<Rightarrow> semanticTopK (config idx) | Some t \<Rightarrow> t);
          semantic = semanticSearch emb idx query (Some (k * 2));
          (keywordResults, idx') = keywordSearch idx query (Some (k * 2))
      in case semantic of
           Inl err \<Rightarrow> (Inl err, idx')
         | Inr semanticResults \<Rightarrow>
             let maxBM25 = math_max1 (map score keywordResults)
             in (case collectScores (\<lambda>s. s) semanticResults [] of
                   Inl err \<Rightarrow> (Inl err, idx')
                 | Inr semanticScores \<Rightarrow>
                     (case collectScores (\<lambda>s. s / maxBM25) keywordResults [] of
                        Inl err \<Rightarrow> (Inl err, idx')
                      | Inr lexicalScores \<Rightarrow>
                          let allUnitIds = new_Set (map fst semanticScores @ map fst lexicalScores);
                              hybridResults =
                                List.map_filter
                                  (hybridResult dayjs idx' flt semanticScores lexicalScores)
                                  allUnitIds
                          in (Inr (slice0 (sortByScoreDesc score hybridResults) k), idx'))))"

section \<open>Language model and JSON\<close>

text \<open>
  A prompt is a fixed template around the values spliced into it; the model keeps the
  template's name and the spliced values and leaves the fixed text out.
\<close>

datatype prompt =
    AnalysisPrompt string
  | AdequacyPrompt string string
  | FollowUpPrompt string string
  | AnswerPrompt string string

datatype json =
    JNull
  | JBool bool
  | JNumber real
  | JString string
  | JArray "json list"
  | JObject "(string \<times> json) list"

datatype Complexity = LOW | HIGH

text \<open>What \<^verbatim>\<open>completeJSON\<close> returns for the two schemas of the source.\<close>

record QueryAnalysisResponse =
  resp_complexity :: Complexity
  retrieval_rationale :: string
  lexical_keywords :: "string list"
  temporal_constraints :: "(string option \<times> string option) option"
  semantic_query :: string

record AnswerResponse =
  reasoning :: string
  answer :: string

text \<open>
  The language model is any state machine: a call reads and changes a state of the
  provider's own, and returns a value or rejects. \<^verbatim>\<open>completeJSON\<close> is one function
  for each schema it is called with. The options of \<^verbatim>\<open>complete\<close> are left out.
\<close>

record 's LLMProvider =
  complete :: "prompt \<Rightarrow> 's \<Rightarrow> (exn + string) \<times> 's"
  completeJSON_analysis :: "prompt \<Rightarrow> 's \<Rightarrow> (exn + QueryAnalysisResponse) \<times> 's"
  completeJSON_answer :: "prompt \<Rightarrow> 's \<Rightarrow> (exn + AnswerResponse) \<times> 's"

text \<open>
  The state outside the index: the provider's state and two counters that the source
  does not have, the number of calls made to the language model and the number of
  bodies of the reflection loop entered.
\<close>

record 's World =
  llm_state :: 's
  oracle_calls :: nat
  reflection_rounds :: nat

definition call_complete ::
  "'s LLMProvider \<Rightarrow> prompt \<Rightarrow> 's World \<Rightarrow> (exn + string) \<times> 's World" where
  "call_complete llm p w =
     (case complete llm p (llm_state w) of
        (r, st) \<Rightarrow> (r, w\<lparr>llm_state := st, oracle_calls := Suc (oracle_calls w)\<rparr>))"

definition call_completeJSON_analysis ::
  "'s LLMProvider \<Rightarrow> prompt \<Rightarrow> 's World \<Rightarrow> (exn + QueryAnalysisResponse) \<times> 's World" where
  "call_completeJSON_analysis llm p w =
     (case completeJSON_analysis llm p (llm_state w) of
        (r, st) \<Rightarrow> (r, w\<lparr>llm_state := st, oracle_calls := Suc (oracle_calls w)\<rparr>))"

definition call_completeJSON_answer ::
  "'s LLMProvider \<Rightarrow> prompt \<Rightarrow> 's World \<Rightarrow> (exn + AnswerResponse) \<times> 's World" where
  "call_completeJSON_answer llm p w =
     (case completeJSON_answer llm p (llm_state w) of
        (r, st) \<Rightarrow> (r, w\<lparr>llm_state := st, oracle_calls := Suc (oracle_calls w)\<rparr>))"

text \<open>String helpers: \<^verbatim>\<open>join\<close>, \<^verbatim>\<open>trim\<close>, and a number in decimal.\<close>

fun join :: "string \<Rightarrow> string list \<Rightarrow> string" where
  "join sep [] = []"
| "join sep [x] = x"
| "join sep (x # y # ys) = x @ sep @ join sep (y # ys)"

definition trim :: "string \<Rightarrow> string" where
  "trim s = rev (dropWhile is_space_char (rev (dropWhile is_space_char s)))"

definition digit_char :: "nat \<Rightarrow> char" where
  "digit_char d = char_of (48 + d)"

fun show_nat :: "nat \<Rightarrow> string" where
  "show_nat n = (if n < 10 then [digit_char n] else show_nat (n div 10) @ [digit_char (n mod 10)])"

definition newline :: string where
  "newline = [CHR 0x0A]"

section \<open>Retrieval controller\<close>

record RetrievalConfig =
  baseK :: int
  complexityDelta :: real
  enablePlanning :: bool
  enableReflection :: bool
  maxReflectionRounds :: int

definition DEFAULT_RETRIEVAL_CONFIG :: RetrievalConfig where
  "DEFAULT_RETRIEVAL_CONFIG =
     \<lparr>baseK = 3, complexityDelta = 2, enablePlanning = True, enableReflection = True,
      maxReflectionRounds = 2\<rparr>"

record QueryAnalysis =
  complexity :: Complexity
  rationale :: string
  lexicalKeywords :: "string list"
  temporalConstraints :: "(string option \<times> string option) option"
  semanticQuery :: string

typedecl AbstractMemory

record RetrievalContext =
  abstracts :: "AbstractMemory list"
  ctx_units :: "MemoryUnit list"
  totalTokens :: int
  retrievalRationale :: "string option"

text \<open>\<^verbatim>\<open>computeDynamicK\<close> of \<^verbatim>\<open>src/utils/similarity.ts\<close>.\<close>

definition computeDynamicK :: "int \<Rightarrow> real \<Rightarrow> real \<Rightarrow> int" where
  "computeDynamicK base cplx delta = \<lfloor>real_of_int base * (1 + delta * cplx)\<rfloor>"

text \<open>
  \<^verbatim>\<open>analyzeQuery\<close>: the answer of the model, or the fallback when the call throws.
  The words of the fallback are the pieces of the query between white space that are
  longer than 3 characters.
\<close>

definition analyzeQuery ::
  "'s LLMProvider \<Rightarrow> string \<Rightarrow> 's World \<Rightarrow> QueryAnalysis \<times> 's World" where
  "analyzeQuery llm query w =
     (case call_completeJSON_analysis llm (AnalysisPrompt query) w of
        (Inr response, w') \<Rightarrow>
          (\<lparr>complexity = resp_complexity response,
            rationale = retrieval_rationale response,
            lexicalKeywords = lexical_keywords response,
            temporalConstraints = temporal_constraints response,
            semanticQuery = semantic_query response\<rparr>, w')
      | (Inl x, w') \<Rightarrow>
          (\<lparr>complexity = LOW,
            rationale = ''Default analysis'',
            lexicalKeywords = filter (\<lambda>t. length t > 3) (split_ws [] query),
            temporalConstraints = None,
            semanticQuery = query\<rparr>, w'))"

text \<open>
  \<^verbatim>\<open>checkAdequacy\<close>: no call for an empty context or for 10 units and more; an
  exception of the call counts as adequate.
\<close>

definition checkAdequacy ::
  "'s LLMProvider \<Rightarrow> string \<Rightarrow> MemoryUnit list \<Rightarrow> 's World \<Rightarrow> bool \<times> 's World" where
  "checkAdequacy llm query contexts w =
     (if length contexts = 0 then (False, w)
      else if length contexts \<ge> 10 then (True, w)
      else
        let contextStr = join newline (map content (slice0 contexts 5))
        in case call_complete llm (AdequacyPrompt query contextStr) w of
             (Inr response, w') \<Rightarrow> (str_includes (toLowerCase response) ''yes'', w')
           | (Inl x, w') \<Rightarrow> (True, w'))"

text \<open>
  \<^verbatim>\<open>generateAdditionalQueries\<close>. \<^verbatim>\<open>JSON.parse\<close> is a parameter: \<open>None\<close> when it
  throws. Every exception inside the \<^verbatim>\<open>try\<close> block, and an answer that is not an
  array, lead to the empty list.
\<close>

definition json_strings :: "json list \<Rightarrow> string list" where
  "json_strings xs = List.map_filter (\<lambda>j. case j of JString q \<Rightarrow> Some q | _ \<Rightarrow> None) xs"

definition generateAdditionalQueries ::
  "'s LLMProvider \<Rightarrow> (string \<Rightarrow> json option) \<Rightarrow> string \<Rightarrow> MemoryUnit list \<Rightarrow> 's World
     \<Rightarrow> string list \<times> 's World" where
  "generateAdditionalQueries llm json_parse originalQuery currentContexts w =
     (let contextSummary = join newline (map content (slice0 currentContexts 3))
      in case call_complete llm (FollowUpPrompt originalQuery contextSummary) w of
           (Inr response, w') \<Rightarrow>
             (case json_parse (trim response) of
                Some (JArray parsed) \<Rightarrow> (slice0 (json_strings parsed) 2, w')
              | _ \<Rightarrow> ([], w'))
         | (Inl x, w') \<Rightarrow> ([], w'))"

text \<open>
  \<^verbatim>\<open>reflectionSearch\<close>. \<open>mergeResults\<close> is the loop over the results of one
  additional search, \<open>runQueries\<close> the loop over the additional queries, which an
  exception of \<^verbatim>\<open>hybridSearch\<close> leaves. \<open>reflectionLoop n\<close> is the \<^verbatim>\<open>for\<close> loop
  with \<open>n\<close> rounds left: the loop counter is read only by the loop test, so the loop
  runs its body \<open>maxReflectionRounds\<close> times at most (no time when that is negative)
  unless a \<^verbatim>\<open>break\<close> or an exception leaves it.
\<close>

fun mergeResults ::
  "SearchResult list \<Rightarrow> MemoryUnit list \<times> string list
     \<Rightarrow> error + (MemoryUnit list \<times> string list)" where
  "mergeResults [] acc = Inr acc"
| "mergeResults (r # rs) (allUnits, seenIds) =
     (case unit r of
        None \<Rightarrow> Inl TypeError
      | Some u \<Rightarrow>
          if unit_id u \<in> set seenIds then mergeResults rs (allUnits, seenIds)
          else mergeResults rs (allUnits @ [u], set_add (unit_id u) seenIds))"

fun runQueries ::
  "EmbeddingProvider \<Rightarrow> (string \<Rightarrow> int option) \<Rightarrow> string list \<Rightarrow> HybridIndex
     \<Rightarrow> MemoryUnit list \<times> string list
     \<Rightarrow> (error + (MemoryUnit list \<times> string list)) \<times> HybridIndex" where
  "runQueries emb dayjs [] idx acc = (Inr acc, idx)"
| "runQueries emb dayjs (q # qs) idx acc =
     (case hybridSearch emb dayjs idx q None (Some 3) of
        (Inl err, idx') \<Rightarrow> (Inl err, idx')
      | (Inr results, idx') \<Rightarrow>
          (case mergeResults results acc of
             Inl err \<Rightarrow> (Inl err, idx')
           | Inr acc' \<Rightarrow> runQueries emb dayjs qs idx' acc'))"

fun reflectionLoop ::
  "'s LLMProvider \<Rightarrow> (string \<Rightarrow> json option) \<Rightarrow> EmbeddingProvider \<Rightarrow> (string \<Rightarrow> int option)
     \<Rightarrow> string \<Rightarrow> nat \<Rightarrow> MemoryUnit list \<times> string list \<Rightarrow> HybridIndex \<Rightarrow> 's World
     \<Rightarrow> (error + MemoryUnit list) \<times> HybridIndex \<times> 's World" where
  "reflectionLoop llm json_parse emb dayjs originalQuery 0 (allUnits, seenIds) idx w =
     (Inr allUnits, idx, w)"
| "reflectionLoop llm json_parse emb dayjs originalQuery (Suc n) (allUnits, seenIds) idx w =
     (let w0 = w\<lparr>reflection_rounds := Suc (reflection_rounds w)\<rparr>
      in case checkAdequacy llm originalQuery allUnits w0 of
           (isAdequate, w1) \<Rightarrow>
             if isAdequate then (Inr allUnits, idx, w1)
             else
               (case generateAdditionalQueries llm json_parse originalQuery allUnits w1 of
                  (additionalQueries, w2) \<Rightarrow>
                    if length additionalQueries = 0 then (Inr allUnits, idx, w2)
                    else
                      (case runQueries emb dayjs additionalQueries idx (allUnits, seenIds) of
                         (Inl err, idx') \<Rightarrow> (Inl err, idx', w2)
                       | (Inr acc, idx') \<Rightarrow>
                           reflectionLoop llm json_parse emb dayjs originalQuery n acc idx' w2)))"

definition reflectionSearch ::
  "'s LLMProvider \<Rightarrow> (string \<Rightarrow> json option) \<Rightarrow> EmbeddingProvider \<Rightarrow> (string \<Rightarrow> int option)
     \<Rightarrow> RetrievalConfig \<Rightarrow> string \<Rightarrow> MemoryUnit list \<Rightarrow> HybridIndex \<Rightarrow> 's World
     \<Rightarrow> (error + MemoryUnit list) \<times> HybridIndex \<times> 's World" where
  "reflectionSearch llm json_parse emb dayjs cfg originalQuery initialResults idx w =
     reflectionLoop llm json_parse emb dayjs originalQuery (nat (maxReflectionRounds cfg))
       (initialResults, new_Set (map unit_id initialResults)) idx w"

text \<open>\<^verbatim>\<open>estimateTokens\<close>: a quarter of the characters, rounded up.\<close>

definition estimateTokens :: "MemoryUnit list \<Rightarrow> int" where
  "estimateTokens us =
     (let totalChars =
            foldl (\<lambda>sum u. sum + length (content u)
                     + (case location u of None \<Rightarrow> 0 | Some l \<Rightarrow> length l)
                     + length (join '' '' (persons u))) 0 us
      in \<lceil>real totalChars / 4\<rceil>)"

text \<open>
  \<^verbatim>\<open>retrieve\<close>. A result of the search without unit would make the first read of
  one of its properties throw.
\<close>

definition retrieve ::
  "'s LLMProvider \<Rightarrow> (string \<Rightarrow> json option) \<Rightarrow> EmbeddingProvider \<Rightarrow> (string \<Rightarrow> int option)
     \<Rightarrow> RetrievalConfig \<Rightarrow> string \<Rightarrow> HybridIndex \<Rightarrow> 's World
     \<Rightarrow> (error + RetrievalContext) \<times> HybridIndex \<times> 's World" where
  "retrieve llm json_parse emb dayjs cfg query idx w =
     (let (analysis, w1) =
            (if enablePlanning cfg
             then (case analyzeQuery llm query w of (a, w') \<Rightarrow> (Some a, w'))
             else (None, w));
          flt =
            (case analysis of
               None \<Rightarrow> None
             | Some a \<Rightarrow>
                 (case temporalConstraints a of
                    None \<Rightarrow> None
                  | Some (start, end) \<Rightarrow>
                      if truthy start \<or> truthy end
                      then Some \<lparr>f_persons = None, f_entities = None,
                                 timestampRange = Some (start, end),
                                 f_location = None, f_topic = None\<rparr>
                      else None));
          isHigh = (case analysis of None \<Rightarrow> False | Some a \<Rightarrow> complexity a = HIGH);
          complexityScore = (if isHigh then 1 else 0);
          dynamicK = computeDynamicK (baseK cfg) complexityScore (complexityDelta cfg);
          searchQuery = (case analysis of None \<Rightarrow> query | Some a \<Rightarrow> semanticQuery a)
      in case hybridSearch emb dayjs idx searchQuery flt (Some dynamicK) of
           (Inl err, idx1) \<Rightarrow> (Inl err, idx1, w1)
         | (Inr results, idx1) \<Rightarrow>
             (case those (map unit results) of
                None \<Rightarrow> (Inl TypeError, idx1, w1)
              | Some found \<Rightarrow>
                  (case (if enableReflection cfg \<and> isHigh
                         then reflectionSearch llm json_parse emb dayjs cfg query found idx1 w1
                         else (Inr found, idx1, w1)) of
                     (Inl err, idx2, w2) \<Rightarrow> (Inl err, idx2, w2)
                   | (Inr allUnits, idx2, w2) \<Rightarrow>
                       (Inr \<lparr>abstracts = [], ctx_units = allUnits,
                             totalTokens = estimateTokens allUnits,
                             retrievalRationale =
                               (case analysis of None \<Rightarrow> None | Some a \<Rightarrow> Some (rationale a))\<rparr>,
                        idx2, w2))))"

section \<open>Answer generator\<close>

definition INSUFFICIENT :: string where
  "INSUFFICIENT = ''I do not have enough information in my memory to answer this question.''"

definition optLine :: "string \<Rightarrow> string option \<Rightarrow> string list" where
  "optLine label v = (case v of None \<Rightarrow> [] | Some t \<Rightarrow> if t = [] then [] else [label @ t])"

definition formatUnit :: "nat \<Rightarrow> MemoryUnit \<Rightarrow> string" where
  "formatUnit i u =
     join newline
       ([''[Context '' @ show_nat (i + 1) @ '']'', ''Content: '' @ content u]
        @ optLine ''Time: '' (timestamp u)
        @ optLine ''Location: '' (location u)
        @ (if length (persons u) > 0 then [''Persons: '' @ join '', '' (persons u)] else [])
        @ (if length (entities u) > 0 then [''Entities: '' @ join '', '' (entities u)] else [])
        @ optLine ''Topic: '' (topic u))"

definition formatContext :: "RetrievalContext \<Rightarrow> string" where
  "formatContext context =
     join (newline @ newline)
       (map (\<lambda>(i, u). formatUnit i u) (zip [0 ..< length (ctx_units context)] (ctx_units context)))"

definition buildPrompt :: "string \<Rightarrow> string \<Rightarrow> prompt" where
  "buildPrompt query contextStr = AnswerPrompt query contextStr"

text \<open>
  \<^verbatim>\<open>generate\<close>: the fixed message for an empty context; else the structured call
  and, when it throws, the plain call, whose exception is passed on.
\<close>

definition generate ::
  "'s LLMProvider \<Rightarrow> string \<Rightarrow> RetrievalContext \<Rightarrow> 's World \<Rightarrow> (error + string) \<times> 's World" where
  "generate llm query context w =
     (if length (ctx_units context) = 0 then (Inr INSUFFICIENT, w)
      else
        let contextStr = formatContext context;
            p = buildPrompt query contextStr
        in case call_completeJSON_answer llm p w of
             (Inr response, w') \<Rightarrow> (Inr (answer response), w')
           | (Inl x, w') \<Rightarrow>
               (case call_complete llm p w' of
                  (Inr response, w'') \<Rightarrow> (Inr response, w'')
                | (Inl y, w'') \<Rightarrow> (Inl (OracleRejected y), w'')))"

section \<open>Ranking without the symbolic term\<close>

text \<open>
  The index with the symbolic weight set to 0, against which the ranking of a search
  without filter is compared, and the shift of a result's score by a constant.
\<close>

definition without_bonus :: "HybridIndex \<Rightarrow> HybridIndex" where
  "without_bonus idx = idx\<lparr>config := (config idx)\<lparr>symbolicWeight := 0\<rparr>\<rparr>"

definition add_bonus :: "real \<Rightarrow> SearchResult \<Rightarrow> SearchResult" where
  "add_bonus g r = r\<lparr>score := score r + g\<rparr>"

section \<open>Invariant of the index\<close>

text \<open>
  The keys of the unit map are distinct and each unit is stored under its own id. A new
  index has the invariant and every operation keeps it (proved below).
\<close>

definition wf_index :: "HybridIndex \<Rightarrow> bool" where
  "wf_index idx =
     (distinct (map fst (units idx)) \<and> list_all (\<lambda>p. fst p = unit_id (snd p)) (units idx))"

section \<open>Example inputs\<close>

text \<open>Concrete units, filters, providers and indexes, used to instantiate the theorems.\<close>

definition dayjs_days :: "string \<Rightarrow> int option" where
  "dayjs_days s =
     (if s = ''2025-01-01'' then Some 1
      else if s = ''2025-06-15'' then Some 166
      else if s = ''2025-12-31'' then Some 365
      else None)"

definition unit_blank :: MemoryUnit where
  "unit_blank =
     \<lparr>unit_id = ''u0'', content = '''', unit_keywords = [], persons = [], entities = [],
      timestamp = None, location = None, topic = None, salience = Medium, embedding = None\<rparr>"

definition unit_vec :: MemoryUnit where
  "unit_vec = unit_blank\<lparr>unit_id := ''u1'', embedding := Some [1]\<rparr>"

definition filter_none :: QueryFilter where
  "filter_none =
     \<lparr>f_persons = None, f_entities = None, timestampRange = None, f_location = None,
      f_topic = None\<rparr>"

definition filter_2025 :: QueryFilter where
  "filter_2025 = filter_none\<lparr>timestampRange := Some (Some ''2025-01-01'', Some ''2025-12-31'')\<rparr>"

definition embed_down :: EmbeddingProvider where
  "embed_down texts = Inl ''provider down''"

definition index_empty :: HybridIndex where
  "index_empty = new_HybridIndex DEFAULT_INDEXING_CONFIG"

definition embed_ones :: EmbeddingProvider where
  "embed_ones texts = Inr (map (\<lambda>t. [1]) texts)"

definition unit_a1 :: MemoryUnit where
  "unit_a1 = unit_blank\<lparr>unit_id := ''a'', content := ''Alice meets Bob''\<rparr>"

definition unit_a2 :: MemoryUnit where
  "unit_a2 = unit_blank\<lparr>unit_id := ''a'', content := ''Alice meets Carol''\<rparr>"

definition index_a1 :: HybridIndex where
  "index_a1 = snd (snd (addUnits embed_ones index_empty [unit_a1]))"

definition index_a2 :: HybridIndex where
  "index_a2 = snd (snd (addUnits embed_ones index_a1 [unit_a2]))"

definition unit_e1 :: MemoryUnit where
  "unit_e1 = unit_blank\<lparr>unit_id := ''e1'', embedding := Some [1]\<rparr>"
definition unit_e2 :: MemoryUnit where
  "unit_e2 = unit_blank\<lparr>unit_id := ''e2'', embedding := Some [1]\<rparr>"
definition unit_e3 :: MemoryUnit where
  "unit_e3 = unit_blank\<lparr>unit_id := ''e3'', embedding := Some [1]\<rparr>"
definition unit_e4 :: MemoryUnit where
  "unit_e4 = unit_blank\<lparr>unit_id := ''e4'', embedding := Some [1]\<rparr>"

definition index_four :: HybridIndex where
  "index_four = snd (snd (addUnits embed_ones index_empty [unit_e1, unit_e2, unit_e3, unit_e4]))"

definition bm_example :: BM25Scorer where
  "bm_example = addDocuments new_BM25Scorer [''Alpha, alpha beta'', ''alpha beta gamma'']"

definition world0 :: "unit World" where
  "world0 = \<lparr>llm_state = (), oracle_calls = 0, reflection_rounds = 0\<rparr>"

definition llm_no :: "unit LLMProvider" where
  \<open>llm_no =
     \<lparr>complete =
        (\<lambda>p s. case p of
                  AdequacyPrompt q c \<Rightarrow> (Inr ''No.'', s)
                | FollowUpPrompt q c \<Rightarrow> (Inr ''["more about Bob"]'', s)
                | _ \<Rightarrow> (Inl ''unexpected prompt'', s)),
      completeJSON_analysis = (\<lambda>p s. (Inl ''unexpected prompt'', s)),
      completeJSON_answer = (\<lambda>p s. (Inl ''unexpected prompt'', s))\<rparr>\<close>

definition json_stub :: "string \<Rightarrow> json option" where
  \<open>json_stub s =
     (if s = ''["more about Bob"]'' then Some (JArray [JString ''more about Bob'']) else None)\<close>

definition config_one_round :: RetrievalConfig where
  "config_one_round = DEFAULT_RETRIEVAL_CONFIG\<lparr>maxReflectionRounds := 1\<rparr>"

definition llm_down :: "unit LLMProvider" where
  "llm_down =
     \<lparr>complete = (\<lambda>p s. (Inl ''model down'', s)),
      completeJSON_analysis = (\<lambda>p s. (Inl ''model down'', s)),
      completeJSON_answer = (\<lambda>p s. (Inl ''model down'', s))\<rparr>"

definition llm_garbled :: "unit LLMProvider" where
  "llm_garbled =
     \<lparr>complete = (\<lambda>p s. (Inr ''I cannot help with that.'', s)),
      completeJSON_analysis = (\<lambda>p s. (Inl ''not JSON'', s)),
      completeJSON_answer = (\<lambda>p s. (Inl ''not JSON'', s))\<rparr>"

definition embed_short :: EmbeddingProvider where
  "embed_short texts = Inr []"

definition unit_plain :: MemoryUnit where
  "unit_plain = unit_blank\<lparr>unit_id := ''p'', content := ''Sarah got promoted''\<rparr>"

definition index_mixed :: HybridIndex where
  "index_mixed = snd (snd (addUnits embed_short index_empty [unit_vec, unit_plain]))"

definition bm_mixed :: BM25Scorer where
  "bm_mixed = addDocuments new_BM25Scorer ['''', ''Sarah got promoted'']"

definition score_plain :: real where
  "score_plain = docScore bm_mixed [''promoted''] [''sarah'', ''got'', ''promoted'']"

section \<open>Properties\<close>

subsection \<open>Embedding failure in addUnits\<close>

text \<open>
  C1, as the specification states it, fails: when the provider rejects, the units of
  the call that already carried an embedding are not upserted. Here a call with one
  embedded and one plain unit on an empty index fails and leaves the index empty.
\<close>

theorem addUnits_failure_counterexample:
  "hasEmbedding unit_vec \<and>
   fst (addUnits embed_down index_empty [unit_vec, unit_blank]) =
     Inl (EmbedRejected ''provider down'') \<and>
   getAllUnits (snd (snd (addUnits embed_down index_empty [unit_vec, unit_blank]))) = []"
  by (simp add: addUnits_def hasEmbedding_def unit_vec_def unit_blank_def embed_down_def
      index_empty_def new_HybridIndex_def getAllUnits_def)

text \<open>
  C1, amended: if the embedding provider rejects the batch of \<^verbatim>\<open>addUnits\<close>, the call
  fails with the provider's error, no unit of the call receives an embedding, and the
  index is left as it was: no unit of the call is upserted, the units that already
  carried an embedding included.
\<close>

theorem addUnits_failure:
  "emb (map content (filter (\<lambda>u. \<not> hasEmbedding u) us)) = Inl x \<Longrightarrow>
   filter (\<lambda>u. \<not> hasEmbedding u) us \<noteq> [] \<Longrightarrow>
   addUnits emb idx us = (Inl (EmbedRejected x), us, idx)"
  by (simp add: addUnits_def)

theorem addUnits_failure_witness:
  "embed_down (map content (filter (\<lambda>u. \<not> hasEmbedding u) [unit_vec, unit_blank])) =
     Inl ''provider down'' \<and>
   filter (\<lambda>u. \<not> hasEmbedding u) [unit_vec, unit_blank] \<noteq> [] \<and>
   addUnits embed_down index_empty [unit_vec, unit_blank] =
     (Inl (EmbedRejected ''provider down''), [unit_vec, unit_blank], index_empty)"
  using addUnits_failure [of embed_down "[unit_vec, unit_blank]" "''provider down''" index_empty]
  by (simp add: hasEmbedding_def unit_vec_def unit_blank_def embed_down_def)

subsection \<open>Units without timestamp and the range filter\<close>

text \<open>
  C2, as the specification states it, fails: a unit without timestamp matches a filter
  that has only a timestamp range.
\<close>

theorem matchesFilter_no_timestamp_counterexample:
  "timestamp unit_blank = None \<and> timestampRange filter_2025 \<noteq> None \<and>
   matchesFilter dayjs_days unit_blank filter_2025"
  by (simp add: unit_blank_def filter_2025_def filter_none_def matchesFilter_def listFails_def
      rangeFails_def textFails_def)

text \<open>
  C2, amended: for a unit without timestamp the range check is skipped, whatever the
  range of the filter: the check does not fail, and the unit matches the filter
  exactly when it matches the same filter without the range, so the other predicates
  are evaluated as before.
\<close>

theorem matchesFilter_no_timestamp:
  "timestamp u = None \<Longrightarrow>
   \<not> rangeFails dayjs (timestampRange f) (timestamp u) \<and>
   matchesFilter dayjs u f = matchesFilter dayjs u (f\<lparr>timestampRange := None\<rparr>)"
  by (simp add: matchesFilter_def rangeFails_def split: option.splits)

theorem matchesFilter_no_timestamp_witness:
  "timestamp unit_blank = None \<and>
   \<not> rangeFails dayjs_days (timestampRange filter_2025) (timestamp unit_blank) \<and>
   matchesFilter dayjs_days unit_blank filter_2025 =
     matchesFilter dayjs_days unit_blank (filter_2025\<lparr>timestampRange := None\<rparr>)"
  using matchesFilter_no_timestamp [of unit_blank dayjs_days filter_2025]
  by (simp add: unit_blank_def)

subsection \<open>Answer generation on an empty context\<close>

text \<open>
  C7: on a context without units \<^verbatim>\<open>generate\<close> returns the fixed message and leaves
  the state of the language model and the count of its calls as they were: neither
  \<^verbatim>\<open>complete\<close> nor \<^verbatim>\<open>completeJSON\<close> is called.
\<close>

theorem generate_empty_context:
  "generate llm query (context\<lparr>ctx_units := []\<rparr>) w =
     (Inr ''I do not have enough information in my memory to answer this question.'', w)"
  by (simp add: generate_def INSUFFICIENT_def)

subsection \<open>Unique ids and last write wins\<close>

text \<open>Facts about the insertion-ordered map, and the invariant under every operation.\<close>

lemma map_of_map_set: "map_of (map_set k v m) = (map_of m)(k \<mapsto> v)"
  by (induction m) (auto simp: fun_eq_iff)

lemma keys_map_set:
  "map fst (map_set k v m) = (if k \<in> set (map fst m) then map fst m else map fst m @ [k])"
  by (induction m) auto

lemma set_map_set: "set (map_set k v m) \<subseteq> insert (k, v) (set m)"
  by (induction m) auto

lemma distinct_map_set: "distinct (map fst m) \<Longrightarrow> distinct (map fst (map_set k v m))"
  by (simp add: keys_map_set)

lemma keyed_map_set:
  "list_all (\<lambda>p. fst p = unit_id (snd p)) m \<Longrightarrow>
   list_all (\<lambda>p. fst p = unit_id (snd p)) (map_set (unit_id u) u m)"
  using set_map_set [of "unit_id u" u m] by (auto simp: list_all_iff)

lemma upsertAll_Nil: "upsertAll [] m = m"
  by (simp add: upsertAll_def)

lemma upsertAll_Cons: "upsertAll (u # us) m = upsertAll us (map_set (unit_id u) u m)"
  by (simp add: upsertAll_def)

lemma distinct_upsertAll: "distinct (map fst m) \<Longrightarrow> distinct (map fst (upsertAll us m))"
  by (induction us arbitrary: m) (simp_all add: upsertAll_Nil upsertAll_Cons distinct_map_set)

lemma keyed_upsertAll:
  "list_all (\<lambda>p. fst p = unit_id (snd p)) m \<Longrightarrow>
   list_all (\<lambda>p. fst p = unit_id (snd p)) (upsertAll us m)"
  by (induction us arbitrary: m) (simp_all add: upsertAll_Nil upsertAll_Cons keyed_map_set)

lemma keys_prefix_upsertAll:
  "take (length m) (map fst (upsertAll us m)) = map fst m"
proof (induction us arbitrary: m)
  case Nil
  then show ?case by (simp add: upsertAll_Nil)
next
  case (Cons u us)
  have len: "length m \<le> length (map_set (unit_id u) u m)"
    by (induction m) auto
  have "take (length m) (map fst (upsertAll us (map_set (unit_id u) u m)))
      = take (length m) (take (length (map_set (unit_id u) u m))
          (map fst (upsertAll us (map_set (unit_id u) u m))))"
    using len by (simp add: min_def)
  also have "\<dots> = take (length m) (map fst (map_set (unit_id u) u m))"
    by (simp only: Cons.IH)
  also have "\<dots> = map fst m"
    by (simp add: keys_map_set)
  finally show ?case by (simp add: upsertAll_Cons)
qed

lemma map_of_upsertAll_content:
  "i \<in> unit_id ` set us \<Longrightarrow> \<forall>x\<in>set us. unit_id x = i \<longrightarrow> content x = c \<Longrightarrow>
   \<exists>u. map_of (upsertAll us m) i = Some u \<and> content u = c"
proof (induction us arbitrary: m rule: rev_induct)
  case Nil
  then show ?case by simp
next
  case (snoc x xs)
  have step: "upsertAll (xs @ [x]) m = map_set (unit_id x) x (upsertAll xs m)"
    by (simp add: upsertAll_def)
  show ?case
  proof (cases "unit_id x = i")
    case True
    with snoc.prems show ?thesis by (simp add: step map_of_map_set)
  next
    case False
    with snoc.prems have "i \<in> unit_id ` set xs" by auto
    moreover from snoc.prems have "\<forall>y\<in>set xs. unit_id y = i \<longrightarrow> content y = c" by simp
    ultimately obtain u where "map_of (upsertAll xs m) i = Some u \<and> content u = c"
      using snoc.IH by blast
    with False show ?thesis by (simp add: step map_of_map_set)
  qed
qed

lemma filter_by_key:
  "distinct (map fst m) \<Longrightarrow> list_all (\<lambda>p. fst p = unit_id (snd p)) m \<Longrightarrow>
   map_of m i = Some u \<Longrightarrow> filter (\<lambda>x. unit_id x = i) (map snd m) = [u]"
proof (induction m)
  case Nil
  then show ?case by simp
next
  case (Cons p m)
  show ?case
  proof (cases "fst p = i")
    case True
    with Cons.prems have "snd p = u" by (cases p) simp
    moreover have "filter (\<lambda>x. unit_id x = i) (map snd m) = []"
    proof -
      have "\<forall>q\<in>set m. unit_id (snd q) \<noteq> i"
      proof
        fix q assume q: "q \<in> set m"
        with Cons.prems have "fst q = unit_id (snd q)" by (simp add: list_all_iff)
        moreover have "fst p \<notin> fst ` set m" using Cons.prems(1) by simp
        with q True have "fst q \<noteq> i" by blast
        ultimately show "unit_id (snd q) \<noteq> i" by simp
      qed
      then show ?thesis by (simp add: filter_empty_conv)
    qed
    ultimately show ?thesis using True Cons.prems by simp
  next
    case False
    with Cons.prems have "map_of m i = Some u" by (cases p) (simp split: if_splits)
    with Cons.prems Cons.IH have "filter (\<lambda>x. unit_id x = i) (map snd m) = [u]" by simp
    with False Cons.prems show ?thesis by simp
  qed
qed

lemma attach_ids: "map unit_id (attachEmbeddings us es) = map unit_id us"
  by (induction us es rule: attachEmbeddings.induct) simp_all

lemma attach_contents: "map content (attachEmbeddings us es) = map content us"
  by (induction us es rule: attachEmbeddings.induct) simp_all

lemma attach_zip:
  "set (zip (map unit_id (attachEmbeddings us es)) (map content (attachEmbeddings us es)))
   = set (zip (map unit_id us) (map content us))"
  by (simp add: attach_ids attach_contents)

lemma wf_new_HybridIndex: "wf_index (new_HybridIndex cfg)"
  by (simp add: wf_index_def new_HybridIndex_def)

lemma addUnits_success_units:
  "addUnits emb idx us = (Inr (), us', idx') \<Longrightarrow>
   units idx' = upsertAll us' (units idx) \<and> map unit_id us' = map unit_id us \<and>
   map content us' = map content us"
  by (auto simp: addUnits_def Let_def attach_ids attach_contents split: if_splits sum.splits)

lemma wf_addUnits: "wf_index idx \<Longrightarrow> wf_index (snd (snd (addUnits emb idx us)))"
  by (auto simp: addUnits_def Let_def wf_index_def distinct_upsertAll keyed_upsertAll
      split: sum.splits)

lemma wf_removeUnit: "wf_index idx \<Longrightarrow> wf_index (removeUnit idx i)"
  by (auto simp: wf_index_def removeUnit_def map_delete_def distinct_map_filter list_all_iff)

lemma wf_clear: "wf_index (clear idx)"
  by (simp add: wf_index_def clear_def)

lemma wf_rebuildLexicalIndex: "wf_index idx \<Longrightarrow> wf_index (rebuildLexicalIndex idx)"
  by (simp add: wf_index_def rebuildLexicalIndex_def)


lemma keyset_map_set: "fst ` set (map_set k v m) = insert k (fst ` set m)"
proof -
  have "set (map fst (map_set k v m)) = insert k (set (map fst m))"
    by (simp only: keys_map_set) auto
  then show ?thesis by simp
qed

lemma keys_upsertAll: "fst ` set (upsertAll us m) = fst ` set m \<union> unit_id ` set us"
  by (induction us arbitrary: m) (simp_all add: upsertAll_Nil upsertAll_Cons keyset_map_set)

lemma keyed_ids:
  "list_all (\<lambda>p. fst p = unit_id (snd p)) m \<Longrightarrow> map unit_id (map snd m) = map fst m"
  by (induction m) simp_all

lemma same_ids_contents:
  assumes "map unit_id us' = map unit_id us" and "map content us' = map content us"
    and "\<forall>x\<in>set us. unit_id x = i \<longrightarrow> content x = c"
  shows "\<forall>x\<in>set us'. unit_id x = i \<longrightarrow> content x = c"
proof
  fix x assume "x \<in> set us'"
  then obtain j where j: "j < length us'" "us' ! j = x"
    by (auto simp: in_set_conv_nth)
  from assms(1) have len: "length us' = length us"
    by (metis length_map)
  from assms(1) j len have "unit_id x = unit_id (us ! j)"
    by (metis nth_map)
  moreover from assms(2) j len have "content x = content (us ! j)"
    by (metis nth_map)
  moreover from j len have "us ! j \<in> set us" by simp
  ultimately show "unit_id x = i \<longrightarrow> content x = c"
    using assms(3) by auto
qed

text \<open>
  C6: in an index that has the invariant (every index made by the operations has it),
  after two successful calls of \<^verbatim>\<open>addUnits\<close>, the first with a unit \<open>u1\<close> and the
  second with a unit \<open>u2\<close> of the same id and another content, the ids of
  \<^verbatim>\<open>getAllUnits\<close> are distinct, exactly one unit has that id and it carries the
  second content, and the second call overwrote in place: the id was present after
  the first call and the ids enumerated after the first call keep their positions.
\<close>

theorem addUnits_twice_last_write_wins:
  assumes wf: "wf_index idx"
    and first: "addUnits emb idx us1 = (Inr (), us1', idx1)"
    and second: "addUnits emb idx1 us2 = (Inr (), us2', idx2)"
    and u1: "u1 \<in> set us1" and u2: "u2 \<in> set us2"
    and same: "unit_id u2 = unit_id u1" and differ: "content u2 \<noteq> content u1"
    and last: "\<forall>x\<in>set us2. unit_id x = unit_id u2 \<longrightarrow> content x = content u2"
  shows "distinct (map unit_id (getAllUnits idx2)) \<and>
         (\<exists>u. filter (\<lambda>x. unit_id x = unit_id u1) (getAllUnits idx2) = [u] \<and>
               content u = content u2 \<and> content u \<noteq> content u1) \<and>
         unit_id u1 \<in> set (map unit_id (getAllUnits idx1)) \<and>
         take (length (getAllUnits idx1)) (map unit_id (getAllUnits idx2)) =
           map unit_id (getAllUnits idx1)"
proof -
  from first have wf1: "wf_index idx1"
    using wf_addUnits [OF wf, of emb us1] by simp
  from second have wf2: "wf_index idx2"
    using wf_addUnits [OF wf1, of emb us2] by simp
  from first have s1: "units idx1 = upsertAll us1' (units idx)"
    "map unit_id us1' = map unit_id us1"
    using addUnits_success_units by blast+
  from second have s2: "units idx2 = upsertAll us2' (units idx1)"
    "map unit_id us2' = map unit_id us2" "map content us2' = map content us2"
    using addUnits_success_units by blast+
  have ids1: "map unit_id (getAllUnits idx1) = map fst (units idx1)"
    unfolding getAllUnits_def using wf1 by (intro keyed_ids) (simp add: wf_index_def)
  have ids2: "map unit_id (getAllUnits idx2) = map fst (units idx2)"
    unfolding getAllUnits_def using wf2 by (intro keyed_ids) (simp add: wf_index_def)
  have d: "distinct (map unit_id (getAllUnits idx2))"
    using wf2 ids2 by (simp add: wf_index_def)
  have "unit_id u2 \<in> set (map unit_id us2')"
    using u2 s2(2) by simp
  then have in2: "unit_id u2 \<in> unit_id ` set us2'" by simp
  have all2: "\<forall>x\<in>set us2'. unit_id x = unit_id u2 \<longrightarrow> content x = content u2"
    using same_ids_contents [OF s2(2) s2(3) last] .
  from map_of_upsertAll_content [OF in2 all2, of "units idx1"]
  obtain u where u: "map_of (units idx2) (unit_id u2) = Some u" "content u = content u2"
    by (auto simp: s2(1))
  have one: "filter (\<lambda>x. unit_id x = unit_id u1) (getAllUnits idx2) = [u]"
    using filter_by_key [of "units idx2" "unit_id u2" u] wf2 u(1) same
    by (simp add: wf_index_def getAllUnits_def)
  have "unit_id u1 \<in> set (map unit_id us1')"
    using u1 s1(2) by simp
  then have "unit_id u1 \<in> unit_id ` set us1'" by simp
  then have present: "unit_id u1 \<in> set (map unit_id (getAllUnits idx1))"
    by (simp add: ids1 s1(1) keys_upsertAll)
  have keep: "take (length (getAllUnits idx1)) (map unit_id (getAllUnits idx2)) =
      map unit_id (getAllUnits idx1)"
  proof -
    have "length (getAllUnits idx1) = length (units idx1)"
      by (simp add: getAllUnits_def)
    then show ?thesis
      using keys_prefix_upsertAll [of "units idx1" us2']
      by (simp only: ids1 ids2 s2(1))
  qed
  from d one u(2) differ present keep show ?thesis by auto
qed

theorem addUnits_twice_last_write_wins_witness:
  "wf_index index_empty \<and>
   fst (addUnits embed_ones index_empty [unit_a1]) = Inr () \<and>
   fst (addUnits embed_ones index_a1 [unit_a2]) = Inr () \<and>
   unit_id unit_a2 = unit_id unit_a1 \<and> content unit_a2 \<noteq> content unit_a1 \<and>
   distinct (map unit_id (getAllUnits index_a2)) \<and>
   (\<exists>u. filter (\<lambda>x. unit_id x = unit_id unit_a1) (getAllUnits index_a2) = [u] \<and>
        content u = content unit_a2 \<and> content u \<noteq> content unit_a1) \<and>
   unit_id unit_a1 \<in> set (map unit_id (getAllUnits index_a1)) \<and>
   take (length (getAllUnits index_a1)) (map unit_id (getAllUnits index_a2)) =
     map unit_id (getAllUnits index_a1)"
proof -
  have wf: "wf_index index_empty"
    by (simp add: index_empty_def wf_index_def new_HybridIndex_def)
  have ok1: "fst (addUnits embed_ones index_empty [unit_a1]) = Inr ()"
    by (simp add: addUnits_def Let_def embed_ones_def unit_a1_def unit_blank_def hasEmbedding_def)
  have ok2: "fst (addUnits embed_ones index_a1 [unit_a2]) = Inr ()"
    by (simp add: addUnits_def Let_def embed_ones_def unit_a2_def unit_blank_def hasEmbedding_def)
  have first: "addUnits embed_ones index_empty [unit_a1] =
      (Inr (), fst (snd (addUnits embed_ones index_empty [unit_a1])), index_a1)"
    using ok1 by (simp add: index_a1_def prod_eq_iff)
  have second: "addUnits embed_ones index_a1 [unit_a2] =
      (Inr (), fst (snd (addUnits embed_ones index_a1 [unit_a2])), index_a2)"
    using ok2 by (simp add: index_a2_def prod_eq_iff)
  have same: "unit_id unit_a2 = unit_id unit_a1"
    by (simp add: unit_a1_def unit_a2_def)
  have differ: "content unit_a2 \<noteq> content unit_a1"
    by (simp add: unit_a1_def unit_a2_def)
  have in1: "unit_a1 \<in> set [unit_a1]" and in2: "unit_a2 \<in> set [unit_a2]"
    by simp_all
  have last: "\<forall>x\<in>set [unit_a2]. unit_id x = unit_id unit_a2 \<longrightarrow> content x = content unit_a2"
    by simp
  show ?thesis
    using addUnits_twice_last_write_wins [OF wf first second in1 in2 same differ last]
      wf ok1 ok2 same differ
    by simp
qed

subsection \<open>Hybrid search: count and order of the results\<close>




lemma slice0_map: "slice0 (map f xs) k = map f (slice0 xs k)"
  by (simp add: slice0_def take_map)


text \<open>
  The searches evaluated on an index of four units with the same embedding and an empty
  content.
\<close>

lemmas ex_defs = unit_e1_def unit_e2_def unit_e3_def unit_e4_def unit_blank_def embed_ones_def
  index_empty_def new_HybridIndex_def DEFAULT_INDEXING_CONFIG_def new_BM25Scorer_def
  new_BM25Scorer_with_def

lemma index_four_eq:
  "index_four = index_empty\<lparr>units := [(''e1'', unit_e1), (''e2'', unit_e2), (''e3'', unit_e3), (''e4'', unit_e4)],
      needsRebuild := True\<rparr>"
  by (simp add: index_four_def addUnits_def Let_def hasEmbedding_def upsertAll_def ex_defs)

lemma tok_meeting: "tokenize ''meeting'' = [''meeting'']"
  by (simp add: tokenize_def toLowerCase_def lower_char_def is_word_char_def is_space_char_def Let_def)

lemma tok_empty: "tokenize [] = []"
  by (simp add: tokenize_def toLowerCase_def)

lemma sem_four:
  "semanticSearch embed_ones index_four ''meeting'' (Some (- 2)) =
     Inr [\<lparr>unit = Some unit_e1, score = 1, matchType = Semantic\<rparr>,
          \<lparr>unit = Some unit_e2, score = 1, matchType = Semantic\<rparr>]"
  by (simp add: index_four_eq semanticSearch_def embed_ones_def cosineSimilarity_def dotProduct_def
      Let_def slice0_def sortByScoreDesc_def unit_e1_def unit_e2_def unit_e3_def unit_e4_def index_empty_def new_HybridIndex_def)

lemma kw_four:
  "fst (keywordSearch index_four ''meeting'' (Some (- 2))) = []"
  by (simp add: index_four_eq keywordSearch_def rebuildLexicalIndex_def addDocuments_def Let_def
      bm25_topK_def bm25_score_def docScore_def termScore_def termFreq_def tok_meeting tok_empty
      slice0_def sortByScoreDesc_def ex_defs)


lemma kw_four':
  "keywordSearch index_four ''meeting'' (Some (- 2)) = ([], rebuildLexicalIndex index_four)"
  using kw_four by (simp add: keywordSearch_def Let_def prod_eq_iff index_four_eq)

lemma units_rebuild: "units (rebuildLexicalIndex idx) = units idx" "config (rebuildLexicalIndex idx) = config idx"
  by (simp_all add: rebuildLexicalIndex_def)

lemma hybrid_four_step:
  "fst (hybridSearch embed_ones dayjs_days index_four ''meeting'' None (Some (- 1))) =
     Inr (slice0 (sortByScoreDesc score
            (List.map_filter
               (hybridResult dayjs_days (rebuildLexicalIndex index_four) None
                  [(''e1'', 1), (''e2'', 1)] [])
               [''e1'', ''e2''])) (- 1))"
  by (simp add: hybridSearch_def sem_four kw_four' Let_def math_max1_def new_Set_def set_add_def
      unit_e1_def unit_e2_def unit_blank_def)

lemma hybrid_four_e1:
  "hybridResult dayjs_days (rebuildLexicalIndex index_four) None [(''e1'', 1), (''e2'', 1)] [] ''e1'' =
     Some \<lparr>unit = Some unit_e1, score = 7 / 10, matchType = Hybrid\<rparr>"
  by (simp add: hybridResult_def units_rebuild computeHybridScore_def index_four_eq index_empty_def
      new_HybridIndex_def DEFAULT_INDEXING_CONFIG_def)

lemma hybrid_four_e2:
  "hybridResult dayjs_days (rebuildLexicalIndex index_four) None [(''e1'', 1), (''e2'', 1)] [] ''e2'' =
     Some \<lparr>unit = Some unit_e2, score = 7 / 10, matchType = Hybrid\<rparr>"
  by (simp add: hybridResult_def units_rebuild computeHybridScore_def index_four_eq index_empty_def
      new_HybridIndex_def DEFAULT_INDEXING_CONFIG_def)

lemma sem_four_2:
  "semanticSearch embed_ones index_four ''meeting'' (Some 2) =
     Inr [\<lparr>unit = Some unit_e1, score = 1, matchType = Semantic\<rparr>,
          \<lparr>unit = Some unit_e2, score = 1, matchType = Semantic\<rparr>]"
  by (simp add: index_four_eq semanticSearch_def embed_ones_def cosineSimilarity_def dotProduct_def
      Let_def slice0_def sortByScoreDesc_def unit_e1_def unit_e2_def unit_e3_def unit_e4_def index_empty_def new_HybridIndex_def)

lemma kw_four_2:
  "keywordSearch index_four ''meeting'' (Some 2) = ([], rebuildLexicalIndex index_four)"
  by (simp add: index_four_eq keywordSearch_def rebuildLexicalIndex_def addDocuments_def Let_def
      bm25_topK_def bm25_score_def docScore_def termScore_def termFreq_def tok_meeting tok_empty
      slice0_def sortByScoreDesc_def ex_defs)

lemma hybrid_four_top1:
  "hybridSearch embed_ones dayjs_days index_four ''meeting'' None (Some 1) =
     (Inr [\<lparr>unit = Some unit_e1, score = 7 / 10, matchType = Hybrid\<rparr>],
      rebuildLexicalIndex index_four)"
proof -
  have "hybridSearch embed_ones dayjs_days index_four ''meeting'' None (Some 1) =
     (Inr (slice0 (sortByScoreDesc score
            (List.map_filter
               (hybridResult dayjs_days (rebuildLexicalIndex index_four) None
                  [(''e1'', 1), (''e2'', 1)] [])
               [''e1'', ''e2''])) 1), rebuildLexicalIndex index_four)"
    by (simp add: hybridSearch_def sem_four_2 kw_four_2 Let_def math_max1_def new_Set_def set_add_def
      unit_e1_def unit_e2_def unit_blank_def)
  then show ?thesis
    by (simp add: List.map_filter_def hybrid_four_e1 hybrid_four_e2 slice0_def sortByScoreDesc_def)
qed



subsection \<open>Hybrid search without filter: the uniform bonus\<close>

text \<open>
  A stable sort depends on the order of the keys only, and commutes with a map that
  keeps that order; the searches do not read the symbolic weight.
\<close>

lemma insort_key_same_order:
  "\<forall>y\<in>set ys. (f x \<le> f y) = (g x \<le> g y) \<Longrightarrow> insort_key f x ys = insort_key g x ys"
  by (induction ys) simp_all

lemma sort_key_same_order:
  "\<forall>x\<in>set xs. \<forall>y\<in>set xs. (f x \<le> f y) = (g x \<le> g y) \<Longrightarrow> sort_key f xs = sort_key g xs"
proof (induction xs)
  case Nil
  then show ?case by simp
next
  case (Cons x xs)
  then have "sort_key f xs = sort_key g xs" by simp
  moreover have "insort_key f x (sort_key g xs) = insort_key g x (sort_key g xs)"
    using Cons.prems by (intro insort_key_same_order) simp
  ultimately show ?case by simp
qed

lemma insort_key_through_map:
  "insort_key f (h x) (map h ys) = map h (insort_key (\<lambda>y. f (h y)) x ys)"
  by (induction ys) simp_all

lemma sort_key_through_map:
  "sort_key f (map h xs) = map h (sort_key (\<lambda>y. f (h y)) xs)"
  by (induction xs) (simp_all add: insort_key_through_map)

lemma sortByScoreDesc_add_bonus:
  "sortByScoreDesc score (map (add_bonus g) xs) = map (add_bonus g) (sortByScoreDesc score xs)"
proof -
  have "sort_key (\<lambda>y. - score (add_bonus g y)) xs = sort_key (\<lambda>y. - score y) xs"
    by (rule sort_key_same_order) (simp add: add_bonus_def)
  then show ?thesis
    by (simp add: sortByScoreDesc_def sort_key_through_map)
qed

lemma semanticSearch_config:
  "semanticSearch emb (idx\<lparr>config := c\<rparr>) query (Some t) = semanticSearch emb idx query (Some t)"
  by (simp add: semanticSearch_def split: sum.splits)

lemma keywordSearch_config:
  "keywordSearch (idx\<lparr>config := c\<rparr>) query (Some t) =
     (fst (keywordSearch idx query (Some t)), (snd (keywordSearch idx query (Some t)))\<lparr>config := c\<rparr>)"
  by (simp add: keywordSearch_def Let_def rebuildLexicalIndex_def)

lemma units_keywordSearch: "units (snd (keywordSearch idx query topK)) = units idx"
  by (simp add: keywordSearch_def Let_def rebuildLexicalIndex_def)

lemma config_keywordSearch: "config (snd (keywordSearch idx query topK)) = config idx"
  by (simp add: keywordSearch_def Let_def rebuildLexicalIndex_def)

lemma hybridResult_bonus:
  "hybridResult dayjs idx None sem lx i =
     map_option (add_bonus (symbolicWeight (config idx)))
       (hybridResult dayjs (idx\<lparr>config := (config idx)\<lparr>symbolicWeight := 0\<rparr>\<rparr>) None sem lx i)"
  by (simp add: hybridResult_def computeHybridScore_def add_bonus_def Let_def split: option.splits)

lemma map_filter_map_option:
  "List.map_filter (\<lambda>x. map_option h (f x)) xs = map h (List.map_filter f xs)"
  by (induction xs) (simp_all add: map_filter_simps split: option.splits)

lemma hybridResult_score:
  "hybridResult dayjs idx None sem lx i = Some r \<Longrightarrow>
   score r =
     semanticWeight (config idx) * (case map_of sem i of None \<Rightarrow> 0 | Some x \<Rightarrow> x) +
     lexicalWeight (config idx) * (case map_of lx i of None \<Rightarrow> 0 | Some x \<Rightarrow> x) +
     symbolicWeight (config idx)"
  by (auto simp: hybridResult_def computeHybridScore_def Let_def split: option.splits)

lemma hybridSearch_unfold:
  "hybridSearch emb dayjs idx query flt topK =
     (case semanticSearch emb idx query
             (Some ((case topK of None \<Rightarrow> semanticTopK (config idx) | Some t \<Rightarrow> t) * 2)) of
        Inl err \<Rightarrow> Inl err
      | Inr semr \<Rightarrow>
          (case collectScores (\<lambda>s. s) semr [] of
             Inl err \<Rightarrow> Inl err
           | Inr sems \<Rightarrow>
               (case collectScores
                       (\<lambda>s. s / math_max1 (map score (fst (keywordSearch idx query
                          (Some ((case topK of None \<Rightarrow> semanticTopK (config idx) | Some t \<Rightarrow> t) * 2))))))
                       (fst (keywordSearch idx query
                          (Some ((case topK of None \<Rightarrow> semanticTopK (config idx) | Some t \<Rightarrow> t) * 2))))
                       [] of
                  Inl err \<Rightarrow> Inl err
                | Inr lexs \<Rightarrow>
                    Inr (slice0 (sortByScoreDesc score
                           (List.map_filter
                              (hybridResult dayjs
                                 (snd (keywordSearch idx query
                                    (Some ((case topK of None \<Rightarrow> semanticTopK (config idx) | Some t \<Rightarrow> t) * 2))))
                                 flt sems lexs)
                              (new_Set (map fst sems @ map fst lexs))))
                           (case topK of None \<Rightarrow> semanticTopK (config idx) | Some t \<Rightarrow> t)))),
      snd (keywordSearch idx query
             (Some ((case topK of None \<Rightarrow> semanticTopK (config idx) | Some t \<Rightarrow> t) * 2))))"
  by (simp add: hybridSearch_def Let_def split: prod.splits sum.splits)

lemma hybridSearch_without_bonus:
  assumes "hybridSearch emb dayjs idx query None topK = (Inr rs, idx')"
  shows "\<exists>rs0. hybridSearch emb dayjs (without_bonus idx) query None topK =
             (Inr rs0, without_bonus idx') \<and>
           rs = map (add_bonus (symbolicWeight (config idx))) rs0"
proof -
  define k where "k = (case topK of None \<Rightarrow> semanticTopK (config idx) | Some t \<Rightarrow> t)"
  define kw where "kw = keywordSearch idx query (Some (k * 2))"
  define g where "g = symbolicWeight (config idx)"
  define sm where "sm = semanticSearch emb idx query (Some (k * 2))"
  have k0: "(case topK of None \<Rightarrow> semanticTopK (config (without_bonus idx)) | Some t \<Rightarrow> t) = k"
    by (simp add: k_def without_bonus_def split: option.splits)
  have kw0: "keywordSearch (without_bonus idx) query (Some (k * 2)) = (fst kw, without_bonus (snd kw))"
    by (simp add: without_bonus_def keywordSearch_config kw_def config_keywordSearch)
  have sem0: "semanticSearch emb (without_bonus idx) query (Some (k * 2)) = sm"
    by (simp add: without_bonus_def semanticSearch_config sm_def)
  have res: "\<And>sem lx i. hybridResult dayjs (snd kw) None sem lx i =
      map_option (add_bonus g) (hybridResult dayjs (without_bonus (snd kw)) None sem lx i)"
    using hybridResult_bonus [of dayjs "snd kw"]
    by (simp add: g_def kw_def config_keywordSearch without_bonus_def)
  note u1 = hybridSearch_unfold [of emb dayjs idx query None topK, folded k_def, folded kw_def sm_def]
  note u0 = hybridSearch_unfold [of emb dayjs "without_bonus idx" query None topK,
      unfolded k0 kw0 sem0 fst_conv snd_conv]
  from assms have idx': "idx' = snd kw"
    by (simp add: u1)
  from assms obtain semr where sem: "sm = Inr semr"
    by (cases sm) (simp_all add: u1)
  from assms sem obtain sems where sems: "collectScores (\<lambda>s. s) semr [] = Inr sems"
    by (cases "collectScores (\<lambda>s. s) semr []") (simp_all add: u1)
  from assms sem sems obtain lexs where
    lexs: "collectScores (\<lambda>s. s / math_max1 (map score (fst kw))) (fst kw) [] = Inr lexs"
    by (cases "collectScores (\<lambda>s. s / math_max1 (map score (fst kw))) (fst kw) []")
      (simp_all add: u1)
  let ?ids = "new_Set (map fst sems @ map fst lexs)"
  let ?rs0 = "slice0 (sortByScoreDesc score
               (List.map_filter (hybridResult dayjs (without_bonus (snd kw)) None sems lexs) ?ids)) k"
  from assms have rs: "rs = slice0 (sortByScoreDesc score
               (List.map_filter (hybridResult dayjs (snd kw) None sems lexs) ?ids)) k"
    by (auto simp: u1 sem sems lexs)
  have "hybridSearch emb dayjs (without_bonus idx) query None topK = (Inr ?rs0, without_bonus idx')"
    by (simp add: u0 sem sems lexs idx')
  moreover have "rs = map (add_bonus g) ?rs0"
  proof -
    have "hybridResult dayjs (snd kw) None sems lexs =
        (\<lambda>i. map_option (add_bonus g) (hybridResult dayjs (without_bonus (snd kw)) None sems lexs i))"
      by (rule ext) (rule res)
    then show ?thesis
      by (simp only: rs map_filter_map_option sortByScoreDesc_add_bonus slice0_map)
  qed
  ultimately show ?thesis by (auto simp: g_def)
qed

text \<open>
  C4: without filter every candidate receives the symbolic bonus, so its hybrid score
  is the weighted semantic score plus the weighted lexical score plus the symbolic
  weight; and the search returns the same units in the same order as the search on the
  index whose symbolic weight is 0, each score larger by the symbolic weight.
\<close>

theorem hybridSearch_no_filter_uniform_bonus:
  "(\<forall>sem lx i r. hybridResult dayjs idx None sem lx i = Some r \<longrightarrow>
      score r =
        semanticWeight (config idx) * (case map_of sem i of None \<Rightarrow> 0 | Some x \<Rightarrow> x) +
        lexicalWeight (config idx) * (case map_of lx i of None \<Rightarrow> 0 | Some x \<Rightarrow> x) +
        symbolicWeight (config idx)) \<and>
   (\<forall>rs idx'. hybridSearch emb dayjs idx query None topK = (Inr rs, idx') \<longrightarrow>
      (\<exists>rs0 idx0. hybridSearch emb dayjs (without_bonus idx) query None topK = (Inr rs0, idx0) \<and>
         map unit rs = map unit rs0 \<and>
         map score rs = map (\<lambda>s. s + symbolicWeight (config idx)) (map score rs0)))"
proof (intro conjI allI impI)
  fix sem lx i r
  assume "hybridResult dayjs idx None sem lx i = Some r"
  then show "score r =
        semanticWeight (config idx) * (case map_of sem i of None \<Rightarrow> 0 | Some x \<Rightarrow> x) +
        lexicalWeight (config idx) * (case map_of lx i of None \<Rightarrow> 0 | Some x \<Rightarrow> x) +
        symbolicWeight (config idx)"
    by (rule hybridResult_score)
next
  fix rs idx'
  assume "hybridSearch emb dayjs idx query None topK = (Inr rs, idx')"
  from hybridSearch_without_bonus [OF this]
  obtain rs0 where a: "hybridSearch emb dayjs (without_bonus idx) query None topK =
      (Inr rs0, without_bonus idx')"
    and b: "rs = map (add_bonus (symbolicWeight (config idx))) rs0"
    by blast
  have "map unit rs = map unit rs0"
    by (simp add: b add_bonus_def)
  moreover have "map score rs = map (\<lambda>s. s + symbolicWeight (config idx)) (map score rs0)"
    by (simp add: b add_bonus_def)
  ultimately show "\<exists>rs0 idx0. hybridSearch emb dayjs (without_bonus idx) query None topK =
      (Inr rs0, idx0) \<and> map unit rs = map unit rs0 \<and>
      map score rs = map (\<lambda>s. s + symbolicWeight (config idx)) (map score rs0)"
    using a by blast
qed

theorem hybridSearch_no_filter_uniform_bonus_witness:
  "hybridResult dayjs_days (rebuildLexicalIndex index_four) None [(''e1'', 1), (''e2'', 1)] [] ''e1'' =
     Some \<lparr>unit = Some unit_e1, score = 7 / 10, matchType = Hybrid\<rparr> \<and>
   (7 / 10 :: real) = 6 / 10 * 1 + 3 / 10 * 0 + 1 / 10 \<and>
   hybridSearch embed_ones dayjs_days index_four ''meeting'' None (Some 1) =
     (Inr [\<lparr>unit = Some unit_e1, score = 7 / 10, matchType = Hybrid\<rparr>],
      rebuildLexicalIndex index_four) \<and>
   (\<exists>rs0 idx0.
      hybridSearch embed_ones dayjs_days (without_bonus index_four) ''meeting'' None (Some 1) =
        (Inr rs0, idx0) \<and>
      map unit [\<lparr>unit = Some unit_e1, score = 7 / 10, matchType = Hybrid\<rparr>] = map unit rs0 \<and>
      map score [\<lparr>unit = Some unit_e1, score = 7 / 10, matchType = Hybrid\<rparr>] =
        map (\<lambda>s. s + symbolicWeight (config index_four)) (map score rs0))"
  using hybridSearch_no_filter_uniform_bonus
      [of dayjs_days index_four embed_ones "''meeting''" "Some 1"]
    hybrid_four_top1 hybrid_four_e1
  by simp

subsection \<open>BM25: more occurrences do not score lower\<close>

text \<open>
  The term score is the idf times a saturating function of the term frequency, which
  grows with the frequency when the parameters are in their usual range
  (\<open>k1\<close> not negative, \<open>b\<close> between 0 and 1).
\<close>

lemma saturation_mono:
  fixes a b c :: real
  assumes "0 \<le> c" "0 < a" "a \<le> b"
  shows "a / (a + c) \<le> b / (b + c)"
proof -
  have "a * (b + c) \<le> b * (a + c)"
    using assms by (simp add: algebra_simps mult_right_mono)
  moreover have "0 < a + c" "0 < b + c" using assms by simp_all
  ultimately show ?thesis by (simp add: frac_le_eq divide_simps mult.commute)
qed

lemma termScore_nonneg:
  assumes "0 \<le> bm_k1 bm" "0 \<le> bm_b bm" "bm_b bm \<le> 1" "0 < avgDocLength bm"
  shows "0 \<le> termScore bm d t"
proof -
  let ?c = "bm_k1 bm * (1 - bm_b bm + bm_b bm * (real (length d) / avgDocLength bm))"
  have "0 \<le> ?c" using assms by simp
  then show ?thesis using assms
    by (auto simp: termScore_def Let_def intro!: mult_nonneg_nonneg divide_nonneg_nonneg add_nonneg_nonneg)
qed

lemma termScore_mono_general:
  assumes k1: "0 \<le> bm_k1 bm" and b: "0 \<le> bm_b bm" "bm_b bm \<le> 1"
    and avg: "0 < avgDocLength bm"
    and len: "length d1 = length d2" and tf: "termFreq d2 t < termFreq d1 t"
  shows "termScore bm d2 t \<le> termScore bm d1 t"
proof (cases "0 < termFreq d2 t \<and> 0 < (case idf bm t of None \<Rightarrow> 0 | Some v \<Rightarrow> v)")
  case False
  then have "termScore bm d2 t = 0"
    by (auto simp: termScore_def Let_def)
  then show ?thesis
    using termScore_nonneg [OF k1 b avg, of d1 t] by simp
next
  case True
  define c where "c = bm_k1 bm * (1 - bm_b bm + bm_b bm * (real (length d2) / avgDocLength bm))"
  define w where "w = (case idf bm t of None \<Rightarrow> 0 | Some v \<Rightarrow> v)"
  define a where "a = real (termFreq d2 t)"
  define a' where "a' = real (termFreq d1 t)"
  have c0: "0 \<le> c" using k1 b avg by (simp add: c_def)
  have a0: "0 < a" "a \<le> a'" using True tf by (simp_all add: a_def a'_def)
  have w0: "0 < w" using True by (simp add: w_def)
  have s2: "termScore bm d2 t = w * (bm_k1 bm + 1) * (a / (a + c))"
    using True by (simp add: termScore_def Let_def c_def w_def a_def)
  have s1: "termScore bm d1 t = w * (bm_k1 bm + 1) * (a' / (a' + c))"
    using True tf len by (simp add: termScore_def Let_def c_def w_def a'_def)
  have "a / (a + c) \<le> a' / (a' + c)"
    using c0 a0 by (rule saturation_mono)
  moreover have "0 \<le> w * (bm_k1 bm + 1)" using w0 k1 by simp
  ultimately show ?thesis
    unfolding s1 s2 by (rule mult_left_mono)
qed

lemma addDocuments_params:
  "bm_k1 (addDocuments bm docs) = bm_k1 bm" "bm_b (addDocuments bm docs) = bm_b bm"
  "0 < avgDocLength (addDocuments bm docs)"
  by (auto simp: addDocuments_def Let_def)

text \<open>
  C5: in a scorer with the default parameters (the only ones the index uses), after
  \<^verbatim>\<open>addDocuments\<close>, for two indexed documents with the same number of tokens, if
  one has the term strictly more often than the other, its term score is at least the
  other's.
\<close>

theorem termScore_monotone_in_tf:
  assumes "bm = addDocuments bm0 docs"
    and "bm_k1 bm0 = bm_k1 new_BM25Scorer" and "bm_b bm0 = bm_b new_BM25Scorer"
    and "d1 \<in> set (documents bm)" and "d2 \<in> set (documents bm)"
    and "length d1 = length d2" and "termFreq d2 t < termFreq d1 t"
  shows "termScore bm d2 t \<le> termScore bm d1 t"
proof -
  have "0 \<le> bm_k1 bm" "0 \<le> bm_b bm" "bm_b bm \<le> 1" "0 < avgDocLength bm"
    using assms(1-3)
    by (simp_all add: addDocuments_params new_BM25Scorer_def new_BM25Scorer_with_def)
  then show ?thesis
    using assms(6,7) by (rule termScore_mono_general)
qed

lemma tok_doc1: "tokenize ''Alpha, alpha beta'' = [''alpha'', ''alpha'', ''beta'']"
  by code_simp

lemma tok_doc2: "tokenize ''alpha beta gamma'' = [''alpha'', ''beta'', ''gamma'']"
  by (simp add: tokenize_def toLowerCase_def lower_char_def is_word_char_def is_space_char_def Let_def)

theorem termScore_monotone_in_tf_witness:
  "[''alpha'', ''alpha'', ''beta''] \<in> set (documents bm_example) \<and>
   [''alpha'', ''beta'', ''gamma''] \<in> set (documents bm_example) \<and>
   termFreq [''alpha'', ''beta'', ''gamma''] ''alpha'' < termFreq [''alpha'', ''alpha'', ''beta''] ''alpha'' \<and>
   termScore bm_example [''alpha'', ''beta'', ''gamma''] ''alpha''
     \<le> termScore bm_example [''alpha'', ''alpha'', ''beta''] ''alpha''"
proof -
  have docs: "documents bm_example = [[''alpha'', ''alpha'', ''beta''], [''alpha'', ''beta'', ''gamma'']]"
    by (simp add: bm_example_def addDocuments_def Let_def tok_doc1 tok_doc2)
  have d1: "[''alpha'', ''alpha'', ''beta''] \<in> set (documents bm_example)"
    and d2: "[''alpha'', ''beta'', ''gamma''] \<in> set (documents bm_example)"
    by (simp_all add: docs)
  have tf: "termFreq [''alpha'', ''beta'', ''gamma''] ''alpha'' < termFreq [''alpha'', ''alpha'', ''beta''] ''alpha''"
    by (simp add: termFreq_def)
  have len: "length [''alpha'', ''alpha'', ''beta''] = length [''alpha'', ''beta'', ''gamma'']"
    by simp
  show ?thesis
    using termScore_monotone_in_tf [OF bm_example_def refl refl d1 d2 len tf] d1 d2 tf
    by simp
qed

subsection \<open>The reflection loop: rounds and calls of the language model\<close>

text \<open>
  Each call of the language model adds one to the count of calls; the adequacy check
  makes at most one call, the proposal of additional queries exactly one.
\<close>

lemma call_complete_counts:
  "call_complete llm p w = (r, w') \<Longrightarrow>
   oracle_calls w' = Suc (oracle_calls w) \<and> reflection_rounds w' = reflection_rounds w"
  by (auto simp: call_complete_def split: prod.splits)

lemma checkAdequacy_counts:
  "checkAdequacy llm q us w = (a, w') \<Longrightarrow>
   oracle_calls w' \<le> Suc (oracle_calls w) \<and> reflection_rounds w' = reflection_rounds w"
  by (auto simp: checkAdequacy_def Let_def split: if_splits prod.splits sum.splits
      dest!: call_complete_counts)

lemma generateAdditionalQueries_counts:
  "generateAdditionalQueries llm jp q us w = (qs, w') \<Longrightarrow>
   oracle_calls w' = Suc (oracle_calls w) \<and> reflection_rounds w' = reflection_rounds w"
  by (auto simp: generateAdditionalQueries_def Let_def
      split: prod.splits sum.splits option.splits json.splits dest!: call_complete_counts)

lemma reflectionLoop_counts:
  "reflectionLoop llm jp emb dayjs q n acc idx w = (res, idx', w') \<Longrightarrow>
   reflection_rounds w' \<le> reflection_rounds w + n \<and>
   oracle_calls w' \<le> oracle_calls w + 2 * n"
proof (induction n arbitrary: acc idx w)
  case 0
  then show ?case by (cases acc) simp
next
  case (Suc n)
  obtain us seen where acc: "acc = (us, seen)" by (cases acc)
  define w0 where "w0 = w\<lparr>reflection_rounds := Suc (reflection_rounds w)\<rparr>"
  obtain a w1 where ca: "checkAdequacy llm q us w0 = (a, w1)" by (cases "checkAdequacy llm q us w0")
  from checkAdequacy_counts [OF ca]
  have c1: "oracle_calls w1 \<le> Suc (oracle_calls w)" "reflection_rounds w1 = Suc (reflection_rounds w)"
    by (simp_all add: w0_def)
  show ?case
  proof (cases a)
    case True
    with Suc.prems acc ca have "w' = w1" by (simp add: w0_def [symmetric])
    with c1 show ?thesis by simp
  next
    case False
    obtain qs w2 where ga: "generateAdditionalQueries llm jp q us w1 = (qs, w2)"
      by (cases "generateAdditionalQueries llm jp q us w1")
    from generateAdditionalQueries_counts [OF ga] c1
    have c2: "oracle_calls w2 \<le> oracle_calls w + 2" "reflection_rounds w2 = Suc (reflection_rounds w)"
      by simp_all
    show ?thesis
    proof (cases "length qs = 0")
      case True
      with Suc.prems acc ca ga False have "w' = w2" by (simp add: w0_def [symmetric])
      with c2 show ?thesis by simp
    next
      case nonempty: False
      obtain r idx1 where rq: "runQueries emb dayjs qs idx (us, seen) = (r, idx1)"
        by (cases "runQueries emb dayjs qs idx (us, seen)")
      show ?thesis
      proof (cases r)
        case (Inl err)
        with Suc.prems acc ca ga False nonempty rq have "w' = w2"
          by (simp add: w0_def [symmetric])
        with c2 show ?thesis by simp
      next
        case (Inr acc')
        with Suc.prems acc ca ga False nonempty rq
        have "reflectionLoop llm jp emb dayjs q n acc' idx1 w2 = (res, idx', w')"
          by (simp add: w0_def [symmetric])
        from Suc.IH [OF this] c2 show ?thesis by simp
      qed
    qed
  qed
qed

text \<open>
  The loop evaluated with a model that answers "No." to the adequacy check and proposes
  one additional query, on an empty index, with one round allowed.
\<close>

lemma no_is_not_yes: "str_includes (toLowerCase ''No.'') ''yes'' = False"
  by code_simp

lemma trim_queries: \<open>trim ''["more about Bob"]'' = ''["more about Bob"]''\<close>
  by code_simp

lemma checkAdequacy_llm_no:
  "checkAdequacy llm_no q [unit_vec] w = (False, w\<lparr>oracle_calls := Suc (oracle_calls w)\<rparr>)"
  by (simp add: checkAdequacy_def call_complete_def llm_no_def no_is_not_yes Let_def)

lemma generateAdditionalQueries_llm_no:
  "generateAdditionalQueries llm_no json_stub q [unit_vec] w =
     ([''more about Bob''], w\<lparr>oracle_calls := Suc (oracle_calls w)\<rparr>)"
  by (simp add: generateAdditionalQueries_def call_complete_def llm_no_def trim_queries json_stub_def
      json_strings_def List.map_filter_def slice0_def Let_def)

lemma hybridSearch_index_empty:
  "hybridSearch embed_ones dayjs_days index_empty q None (Some 3) = (Inr [], index_empty)"
  by (simp add: hybridSearch_def semanticSearch_def keywordSearch_def embed_ones_def Let_def
      bm25_topK_def bm25_score_def slice0_def sortByScoreDesc_def math_max1_def new_Set_def
      List.map_filter_def index_empty_def new_HybridIndex_def new_BM25Scorer_def
      new_BM25Scorer_with_def)

lemma runQueries_index_empty:
  "runQueries embed_ones dayjs_days [q] index_empty acc = (Inr acc, index_empty)"
  by (cases acc) (simp add: hybridSearch_index_empty)

lemma reflectionSearch_llm_no:
  "reflectionSearch llm_no json_stub embed_ones dayjs_days config_one_round q [unit_vec] index_empty
     world0 =
   (Inr [unit_vec], index_empty, world0\<lparr>oracle_calls := 2, reflection_rounds := 1\<rparr>)"
  by (simp add: reflectionSearch_def config_one_round_def DEFAULT_RETRIEVAL_CONFIG_def
      checkAdequacy_llm_no generateAdditionalQueries_llm_no hybridSearch_index_empty world0_def
      Let_def)

text \<open>
  C8, as the specification states it, fails for the calls of the language model: with
  \<^verbatim>\<open>maxReflectionRounds = 1\<close> the loop makes two calls, one for the adequacy check and
  one for the additional queries.
\<close>

theorem reflectionSearch_round_trips_counterexample:
  "maxReflectionRounds config_one_round = 1 \<and> oracle_calls world0 = 0 \<and>
   oracle_calls (snd (snd (reflectionSearch llm_no json_stub embed_ones dayjs_days config_one_round
     ''Where do Alice and Bob meet?'' [unit_vec] index_empty world0))) = 2"
proof -
  have "maxReflectionRounds config_one_round = 1"
    by (simp add: config_one_round_def)
  moreover have "oracle_calls world0 = 0"
    by (simp add: world0_def)
  ultimately show ?thesis
    by (simp add: reflectionSearch_llm_no)
qed

text \<open>
  C8, amended: the reflection loop runs its body at most \<^verbatim>\<open>maxReflectionRounds\<close>
  times (not at all when that is zero or negative) and makes at most two calls of the
  language model in each round, so at most twice \<^verbatim>\<open>maxReflectionRounds\<close> calls,
  whatever the verdicts of the model.
\<close>

theorem reflectionSearch_bounds:
  "reflectionSearch llm jp emb dayjs cfg q initialResults idx w = (res, idx', w') \<Longrightarrow>
   reflection_rounds w' \<le> reflection_rounds w + nat (maxReflectionRounds cfg) \<and>
   oracle_calls w' \<le> oracle_calls w + 2 * nat (maxReflectionRounds cfg)"
  unfolding reflectionSearch_def by (rule reflectionLoop_counts)

theorem reflectionSearch_bounds_witness:
  "reflectionSearch llm_no json_stub embed_ones dayjs_days config_one_round
     ''Where do Alice and Bob meet?'' [unit_vec] index_empty world0 =
     (Inr [unit_vec], index_empty, world0\<lparr>oracle_calls := 2, reflection_rounds := 1\<rparr>) \<and>
   reflection_rounds (world0\<lparr>oracle_calls := 2, reflection_rounds := 1\<rparr>)
     \<le> reflection_rounds world0 + nat (maxReflectionRounds config_one_round) \<and>
   oracle_calls (world0\<lparr>oracle_calls := 2, reflection_rounds := 1\<rparr>)
     \<le> oracle_calls world0 + 2 * nat (maxReflectionRounds config_one_round)"
  using reflectionSearch_bounds [OF reflectionSearch_llm_no [of "''Where do Alice and Bob meet?''"]]
    reflectionSearch_llm_no [of "''Where do Alice and Bob meet?''"]
  by simp

subsection \<open>Failures of the language model during reflection\<close>

text \<open>
  No error of the searches is a rejection of the language model, so none can leave
  \<^verbatim>\<open>reflectionSearch\<close> or \<^verbatim>\<open>retrieve\<close>; a round of the loop ends the loop when the
  evidence is adequate or when no query is proposed.
\<close>

lemma cosineSimilarity_error: "cosineSimilarity q e = Inl err \<Longrightarrow> err \<noteq> OracleRejected y"
  by (auto simp: cosineSimilarity_def Let_def split: option.splits if_splits)

lemma scoreUnits_error: "scoreUnits q us = Inl err \<Longrightarrow> err \<noteq> OracleRejected y"
  by (induction us) (auto split: option.splits sum.splits dest: cosineSimilarity_error)

lemma semanticSearch_error: "semanticSearch emb idx query topK = Inl err \<Longrightarrow> err \<noteq> OracleRejected y"
  by (auto simp: semanticSearch_def Let_def split: sum.splits dest: scoreUnits_error)

lemma collectScores_error: "collectScores g rs m = Inl err \<Longrightarrow> err \<noteq> OracleRejected y"
  by (induction rs arbitrary: m) (auto split: option.splits)

lemma hybridSearch_error:
  "fst (hybridSearch emb dayjs idx query flt topK) = Inl err \<Longrightarrow> err \<noteq> OracleRejected y"
  unfolding hybridSearch_unfold fst_conv
  by (auto split: sum.splits dest: semanticSearch_error collectScores_error)

lemma mergeResults_error: "mergeResults rs acc = Inl err \<Longrightarrow> err \<noteq> OracleRejected y"
  by (induction rs acc rule: mergeResults.induct) (auto split: option.splits if_splits)

lemma runQueries_error:
  "fst (runQueries emb dayjs qs idx acc) = Inl err \<Longrightarrow> err \<noteq> OracleRejected y"
proof (induction qs arbitrary: idx acc)
  case Nil
  then show ?case by simp
next
  case (Cons q qs)
  obtain r idx1 where h: "hybridSearch emb dayjs idx q None (Some 3) = (r, idx1)"
    by (cases "hybridSearch emb dayjs idx q None (Some 3)")
  show ?case
  proof (cases r)
    case (Inl e)
    with Cons.prems h have "err = e" by simp
    moreover from h Inl have "fst (hybridSearch emb dayjs idx q None (Some 3)) = Inl e" by simp
    ultimately show ?thesis using hybridSearch_error by blast
  next
    case (Inr results)
    show ?thesis
    proof (cases "mergeResults results acc")
      case (Inl e)
      with Cons.prems h Inr have "err = e" by simp
      with Inl show ?thesis using mergeResults_error by blast
    next
      case inner: (Inr acc')
      with Cons.prems h Inr have "fst (runQueries emb dayjs qs idx1 acc') = Inl err" by simp
      then show ?thesis by (rule Cons.IH)
    qed
  qed
qed

lemma reflectionLoop_error:
  "fst (reflectionLoop llm jp emb dayjs q n acc idx w) = Inl err \<Longrightarrow> err \<noteq> OracleRejected y"
proof (induction n arbitrary: acc idx w)
  case 0
  then show ?case by (cases acc) simp
next
  case (Suc n)
  obtain us seen where acc: "acc = (us, seen)" by (cases acc)
  define w0 where "w0 = w\<lparr>reflection_rounds := Suc (reflection_rounds w)\<rparr>"
  obtain a w1 where ca: "checkAdequacy llm q us w0 = (a, w1)" by (cases "checkAdequacy llm q us w0")
  obtain qs w2 where ga: "generateAdditionalQueries llm jp q us w1 = (qs, w2)"
    by (cases "generateAdditionalQueries llm jp q us w1")
  obtain r idx1 where rq: "runQueries emb dayjs qs idx (us, seen) = (r, idx1)"
    by (cases "runQueries emb dayjs qs idx (us, seen)")
  from Suc.prems acc ca ga rq have run: "\<not> a" "length qs \<noteq> 0"
    by (auto simp: w0_def [symmetric] split: if_splits)
  show ?case
  proof (cases r)
    case (Inl e)
    with Suc.prems acc ca ga rq run have "err = e" by (simp add: w0_def [symmetric])
    moreover from rq Inl have "fst (runQueries emb dayjs qs idx (us, seen)) = Inl e" by simp
    ultimately show ?thesis using runQueries_error by blast
  next
    case (Inr acc')
    with Suc.prems acc ca ga rq run
    have "fst (reflectionLoop llm jp emb dayjs q n acc' idx1 w2) = Inl err"
      by (simp add: w0_def [symmetric])
    then show ?thesis by (rule Suc.IH)
  qed
qed

lemma reflectionSearch_error:
  "fst (reflectionSearch llm jp emb dayjs cfg q us idx w) = Inl err \<Longrightarrow> err \<noteq> OracleRejected y"
  unfolding reflectionSearch_def by (rule reflectionLoop_error)

lemma retrieve_error:
  assumes "fst (retrieve llm jp emb dayjs cfg query idx w) = Inl err"
  shows "err \<noteq> OracleRejected y"
proof -
  obtain analysis w1 where an:
    "(if enablePlanning cfg
      then (case analyzeQuery llm query w of (a, w') \<Rightarrow> (Some a, w'))
      else (None, w)) = (analysis, w1)"
    by (cases "if enablePlanning cfg
      then (case analyzeQuery llm query w of (a, w') \<Rightarrow> (Some a, w'))
      else (None, w)")
  define flt where "flt =
            (case analysis of
               None \<Rightarrow> None
             | Some a \<Rightarrow>
                 (case temporalConstraints a of
                    None \<Rightarrow> None
                  | Some (start, end) \<Rightarrow>
                      if truthy start \<or> truthy end
                      then Some \<lparr>f_persons = None, f_entities = None,
                                 timestampRange = Some (start, end),
                                 f_location = None, f_topic = None\<rparr>
                      else None))"
  define isHigh where "isHigh = (case analysis of None \<Rightarrow> False | Some a \<Rightarrow> complexity a = HIGH)"
  define dynamicK where
    "dynamicK = computeDynamicK (baseK cfg) (if isHigh then 1 else 0) (complexityDelta cfg)"
  define searchQuery where
    "searchQuery = (case analysis of None \<Rightarrow> query | Some a \<Rightarrow> semanticQuery a)"
  obtain r idx1 where h: "hybridSearch emb dayjs idx searchQuery flt (Some dynamicK) = (r, idx1)"
    by (cases "hybridSearch emb dayjs idx searchQuery flt (Some dynamicK)")
  have unf: "retrieve llm jp emb dayjs cfg query idx w =
      (case r of
         Inl e \<Rightarrow> (Inl e, idx1, w1)
       | Inr results \<Rightarrow>
           (case those (map unit results) of
              None \<Rightarrow> (Inl TypeError, idx1, w1)
            | Some found \<Rightarrow>
                (case (if enableReflection cfg \<and> isHigh
                       then reflectionSearch llm jp emb dayjs cfg query found idx1 w1
                       else (Inr found, idx1, w1)) of
                   (Inl e, idx2, w2) \<Rightarrow> (Inl e, idx2, w2)
                 | (Inr allUnits, idx2, w2) \<Rightarrow>
                     (Inr \<lparr>abstracts = [], ctx_units = allUnits,
                           totalTokens = estimateTokens allUnits,
                           retrievalRationale =
                             (case analysis of None \<Rightarrow> None | Some a \<Rightarrow> Some (rationale a))\<rparr>,
                      idx2, w2))))"
    using h unfolding retrieve_def an Let_def prod.case flt_def isHigh_def dynamicK_def
      searchQuery_def
    by simp
  show ?thesis
  proof (cases r)
    case (Inl e)
    with assms unf have "err = e" by simp
    moreover from h Inl have "fst (hybridSearch emb dayjs idx searchQuery flt (Some dynamicK)) = Inl e"
      by simp
    ultimately show ?thesis using hybridSearch_error by blast
  next
    case (Inr results)
    show ?thesis
    proof (cases "those (map unit results)")
      case None
      with assms unf Inr show ?thesis by simp
    next
      case (Some found)
      show ?thesis
      proof (cases "enableReflection cfg \<and> isHigh")
        case False
        with assms unf Inr Some show ?thesis by auto
      next
        case True
        obtain r2 idx2 w2 where rs:
          "reflectionSearch llm jp emb dayjs cfg query found idx1 w1 = (r2, idx2, w2)"
          by (cases "reflectionSearch llm jp emb dayjs cfg query found idx1 w1")
        with assms unf Inr Some True have "r2 = Inl err"
          by (cases r2) simp_all
        with rs have "fst (reflectionSearch llm jp emb dayjs cfg query found idx1 w1) = Inl err"
          by simp
        then show ?thesis by (rule reflectionSearch_error)
      qed
    qed
  qed
qed


lemma checkAdequacy_oracle_throws:
  assumes "0 < length us" "length us < 10"
    and "fst (complete llm (AdequacyPrompt q (join newline (map content (slice0 us 5)))) (llm_state w)) = Inl x"
  shows "fst (checkAdequacy llm q us w)"
  using assms
  by (auto simp: checkAdequacy_def call_complete_def Let_def split: prod.splits sum.splits)

lemma generateAdditionalQueries_oracle_throws:
  assumes "fst (complete llm (FollowUpPrompt q (join newline (map content (slice0 us 3)))) (llm_state w)) = Inl x"
  shows "fst (generateAdditionalQueries llm jp q us w) = []"
  using assms
  by (auto simp: generateAdditionalQueries_def call_complete_def Let_def split: prod.splits sum.splits)

lemma generateAdditionalQueries_unparseable:
  assumes "fst (complete llm (FollowUpPrompt q (join newline (map content (slice0 us 3)))) (llm_state w)) = Inr resp"
    and "jp (trim resp) = None"
  shows "fst (generateAdditionalQueries llm jp q us w) = []"
  using assms
  by (auto simp: generateAdditionalQueries_def call_complete_def Let_def split: prod.splits sum.splits)

lemma reflectionLoop_stops_adequate:
  assumes "fst (checkAdequacy llm q us (w\<lparr>reflection_rounds := Suc (reflection_rounds w)\<rparr>))"
  shows "fst (reflectionLoop llm jp emb dayjs q (Suc n) (us, seen) idx w) = Inr us"
proof -
  obtain a w1 where ca:
    "checkAdequacy llm q us (w\<lparr>reflection_rounds := Suc (reflection_rounds w)\<rparr>) = (a, w1)"
    by (cases "checkAdequacy llm q us (w\<lparr>reflection_rounds := Suc (reflection_rounds w)\<rparr>)")
  with assms have a by simp
  with ca show ?thesis by (simp add: Let_def)
qed

lemma reflectionLoop_stops_no_queries:
  assumes "fst (generateAdditionalQueries llm jp q us
                 (snd (checkAdequacy llm q us (w\<lparr>reflection_rounds := Suc (reflection_rounds w)\<rparr>)))) = []"
  shows "fst (reflectionLoop llm jp emb dayjs q (Suc n) (us, seen) idx w) = Inr us"
proof -
  obtain a w1 where ca:
    "checkAdequacy llm q us (w\<lparr>reflection_rounds := Suc (reflection_rounds w)\<rparr>) = (a, w1)"
    by (cases "checkAdequacy llm q us (w\<lparr>reflection_rounds := Suc (reflection_rounds w)\<rparr>)")
  obtain qs w2 where ga: "generateAdditionalQueries llm jp q us w1 = (qs, w2)"
    by (cases "generateAdditionalQueries llm jp q us w1")
  from assms ca ga have "qs = []" by simp
  with ca ga show ?thesis by (simp add: Let_def)
qed

text \<open>
  C10: when the call of the adequacy check throws (on 1 to 9 units, where the call is
  made), \<^verbatim>\<open>checkAdequacy\<close> returns true and the loop returns the units it holds at
  that round; when the call that proposes additional queries throws, or its answer
  does not parse, the proposal is the empty list, and on an empty proposal the loop
  returns the units it holds; and neither \<^verbatim>\<open>reflectionSearch\<close> nor \<^verbatim>\<open>retrieve\<close>
  ever fails with a rejection of the language model.
\<close>

theorem reflection_absorbs_oracle_failures:
  "(0 < length us \<and> length us < 10 \<and>
    fst (complete llm (AdequacyPrompt q (join newline (map content (slice0 us 5)))) (llm_state w)) = Inl x
    \<longrightarrow> fst (checkAdequacy llm q us w) \<and>
        fst (reflectionLoop llm jp emb dayjs q (Suc n) (us, seen) idx w) = Inr us) \<and>
   (fst (complete llm (FollowUpPrompt q (join newline (map content (slice0 us 3)))) (llm_state w)) = Inl x
    \<longrightarrow> fst (generateAdditionalQueries llm jp q us w) = []) \<and>
   (fst (complete llm (FollowUpPrompt q (join newline (map content (slice0 us 3)))) (llm_state w)) = Inr resp \<and>
    jp (trim resp) = None
    \<longrightarrow> fst (generateAdditionalQueries llm jp q us w) = []) \<and>
   (fst (generateAdditionalQueries llm jp q us
           (snd (checkAdequacy llm q us (w\<lparr>reflection_rounds := Suc (reflection_rounds w)\<rparr>)))) = []
    \<longrightarrow> fst (reflectionLoop llm jp emb dayjs q (Suc n) (us, seen) idx w) = Inr us) \<and>
   fst (reflectionSearch llm jp emb dayjs cfg q us idx w) \<noteq> Inl (OracleRejected y) \<and>
   fst (retrieve llm jp emb dayjs cfg q idx w) \<noteq> Inl (OracleRejected y)"
proof (intro conjI impI)
  assume a: "0 < length us \<and> length us < 10 \<and>
    fst (complete llm (AdequacyPrompt q (join newline (map content (slice0 us 5)))) (llm_state w)) = Inl x"
  then show "fst (checkAdequacy llm q us w)"
    by (simp add: checkAdequacy_oracle_throws)
  from a have "fst (checkAdequacy llm q us (w\<lparr>reflection_rounds := Suc (reflection_rounds w)\<rparr>))"
    by (intro checkAdequacy_oracle_throws [where x = x]) simp_all
  then show "fst (reflectionLoop llm jp emb dayjs q (Suc n) (us, seen) idx w) = Inr us"
    by (rule reflectionLoop_stops_adequate)
next
  assume "fst (complete llm (FollowUpPrompt q (join newline (map content (slice0 us 3)))) (llm_state w)) = Inl x"
  then show "fst (generateAdditionalQueries llm jp q us w) = []"
    by (rule generateAdditionalQueries_oracle_throws)
next
  assume "fst (complete llm (FollowUpPrompt q (join newline (map content (slice0 us 3)))) (llm_state w)) = Inr resp \<and>
    jp (trim resp) = None"
  then show "fst (generateAdditionalQueries llm jp q us w) = []"
    by (simp add: generateAdditionalQueries_unparseable)
next
  assume "fst (generateAdditionalQueries llm jp q us
           (snd (checkAdequacy llm q us (w\<lparr>reflection_rounds := Suc (reflection_rounds w)\<rparr>)))) = []"
  then show "fst (reflectionLoop llm jp emb dayjs q (Suc n) (us, seen) idx w) = Inr us"
    by (rule reflectionLoop_stops_no_queries)
next
  show "fst (reflectionSearch llm jp emb dayjs cfg q us idx w) \<noteq> Inl (OracleRejected y)"
    using reflectionSearch_error by blast
next
  show "fst (retrieve llm jp emb dayjs cfg q idx w) \<noteq> Inl (OracleRejected y)"
    using retrieve_error by blast
qed

lemma trim_garbled: "trim ''I cannot help with that.'' = ''I cannot help with that.''"
  by code_simp

lemma garbled_is_not_yes: "str_includes (toLowerCase ''I cannot help with that.'') ''yes'' = False"
  by code_simp

theorem reflection_absorbs_oracle_failures_witness:
  "fst (checkAdequacy llm_down ''Where do they meet?'' [unit_vec] world0) \<and>
   fst (reflectionLoop llm_down json_stub embed_ones dayjs_days ''Where do they meet?'' (Suc 0)
          ([unit_vec], [''u1'']) index_empty world0) = Inr [unit_vec] \<and>
   fst (generateAdditionalQueries llm_down json_stub ''Where do they meet?'' [unit_vec] world0) = [] \<and>
   fst (generateAdditionalQueries llm_garbled json_stub ''Where do they meet?'' [unit_vec] world0) = [] \<and>
   fst (reflectionLoop llm_garbled json_stub embed_ones dayjs_days ''Where do they meet?'' (Suc 0)
          ([unit_vec], [''u1'']) index_empty world0) = Inr [unit_vec] \<and>
   fst (retrieve llm_down json_stub embed_ones dayjs_days DEFAULT_RETRIEVAL_CONFIG
          ''Where do they meet?'' index_empty world0) \<noteq> Inl (OracleRejected ''model down'')"
proof -
  let ?q = "''Where do they meet?''"
  have len: "0 < length [unit_vec] \<and> length [unit_vec] < 10" by simp
  have down1: "fst (complete llm_down
      (AdequacyPrompt ?q (join newline (map content (slice0 [unit_vec] 5)))) (llm_state world0)) =
      Inl ''model down''"
    by (simp add: llm_down_def)
  have down2: "fst (complete llm_down
      (FollowUpPrompt ?q (join newline (map content (slice0 [unit_vec] 3)))) (llm_state world0)) =
      Inl ''model down''"
    by (simp add: llm_down_def)
  have garbled: "fst (complete llm_garbled
      (FollowUpPrompt ?q (join newline (map content (slice0 [unit_vec] 3)))) (llm_state world0)) =
      Inr ''I cannot help with that.'' \<and> json_stub (trim ''I cannot help with that.'') = None"
    by (simp add: llm_garbled_def trim_garbled json_stub_def)
  note down = reflection_absorbs_oracle_failures
    [where llm = llm_down and us = "[unit_vec]" and q = ?q and w = world0 and x = "''model down''"
       and jp = json_stub and emb = embed_ones and dayjs = dayjs_days and n = 0
       and seen = "[''u1'']" and idx = index_empty and cfg = DEFAULT_RETRIEVAL_CONFIG
       and y = "''model down''"]
  note garb = reflection_absorbs_oracle_failures
    [where llm = llm_garbled and us = "[unit_vec]" and q = ?q and w = world0
       and resp = "''I cannot help with that.''"
       and jp = json_stub and emb = embed_ones and dayjs = dayjs_days and n = 0
       and seen = "[''u1'']" and idx = index_empty]
  have g1: "fst (generateAdditionalQueries llm_garbled json_stub ?q [unit_vec] world0) = []"
    using garb garbled by blast
  have g2: "fst (generateAdditionalQueries llm_garbled json_stub ?q [unit_vec]
      (snd (checkAdequacy llm_garbled ?q [unit_vec]
         (world0\<lparr>reflection_rounds := Suc (reflection_rounds world0)\<rparr>)))) = []"
    by (simp add: generateAdditionalQueries_def checkAdequacy_def call_complete_def llm_garbled_def
        trim_garbled garbled_is_not_yes json_stub_def Let_def)
  have g3: "fst (reflectionLoop llm_garbled json_stub embed_ones dayjs_days ?q (Suc 0)
          ([unit_vec], [''u1'']) index_empty world0) = Inr [unit_vec]"
    using garb g2 by blast
  show ?thesis
    using down len down1 down2 g1 g3 by blast
qed

subsection \<open>Units without embedding\<close>

text \<open>
  The scoring loop of the semantic search skips a unit without embedding; its results
  are units that carry one.
\<close>

lemma scoreUnits_skips: "scoreUnits q us = scoreUnits q (filter hasEmbedding us)"
  by (induction us) (auto simp: hasEmbedding_def split: option.splits sum.splits)

lemma scoreUnits_embedded:
  "scoreUnits q us = Inr rs \<Longrightarrow> r \<in> set rs \<Longrightarrow> \<exists>u. unit r = Some u \<and> embedding u \<noteq> None"
  by (induction us arbitrary: rs) (auto split: option.splits sum.splits)

lemma set_slice0: "set (slice0 xs k) \<subseteq> set xs"
  by (auto simp: slice0_def dest: in_set_takeD)

lemma semanticSearch_embedded:
  assumes "semanticSearch emb idx query topK = Inr rs" and "r \<in> set rs"
  shows "\<exists>u. unit r = Some u \<and> embedding u \<noteq> None"
proof -
  from assms(1) obtain answer results where
    sc: "scoreUnits (at_index answer 0) (map snd (units idx)) = Inr results"
    and rs: "rs = slice0 (sortByScoreDesc score results)
                    (case topK of None \<Rightarrow> semanticTopK (config idx) | Some t \<Rightarrow> t)"
    by (auto simp: semanticSearch_def Let_def split: sum.splits)
  from assms(2) rs have "r \<in> set results"
    using set_slice0 by (fastforce simp: sortByScoreDesc_def)
  with sc show ?thesis by (rule scoreUnits_embedded)
qed

lemma semanticSearch_skips:
  "semanticSearch emb idx query topK =
     semanticSearch emb (idx\<lparr>units := filter (\<lambda>p. hasEmbedding (snd p)) (units idx)\<rparr>) query topK"
proof -
  have "map snd (filter (\<lambda>p. hasEmbedding (snd p)) (units idx)) =
      filter hasEmbedding (map snd (units idx))"
    by (simp add: filter_map comp_def)
  then show ?thesis
    using scoreUnits_skips [of _ "map snd (units idx)"]
    by (simp add: semanticSearch_def split: sum.splits option.splits)
qed

text \<open>
  An index holds a unit without embedding when the provider answered \<^verbatim>\<open>addUnits\<close>
  with fewer vectors than texts. The searches evaluated on such an index, with one
  embedded unit and one plain unit.
\<close>

lemma index_mixed_eq:
  "index_mixed = index_empty\<lparr>units := [(''u1'', unit_vec), (''p'', unit_plain)],
      needsRebuild := True\<rparr>"
  by (simp add: index_mixed_def addUnits_def Let_def hasEmbedding_def upsertAll_def embed_short_def
      unit_vec_def unit_plain_def unit_blank_def index_empty_def new_HybridIndex_def)

lemma plain_no_embedding: "embedding unit_plain = None"
  by (simp add: unit_plain_def unit_blank_def)

lemma tok_sarah: "tokenize ''Sarah got promoted'' = [''sarah'', ''got'', ''promoted'']"
  by code_simp

lemma tok_promoted: "tokenize ''promoted'' = [''promoted'']"
  by code_simp

lemma idf_two_one: "idf_value (Suc (Suc 0)) (Suc 0) = ln 2"
  by (simp add: idf_value_def)

lemma bm_mixed_fields:
  "documents bm_mixed = [[], [''sarah'', ''got'', ''promoted'']]"
  "avgDocLength bm_mixed = 3 / 2"
  "idf bm_mixed ''promoted'' = Some (ln 2)"
  "bm_k1 bm_mixed = 12 / 10" "bm_b bm_mixed = 75 / 100"
  by (simp_all add: bm_mixed_def addDocuments_def Let_def tok_sarah tok_empty docFreq_def
      idf_two_one new_BM25Scorer_def new_BM25Scorer_with_def)


lemma termScore_plain:
  "termScore bm_mixed [''sarah'', ''got'', ''promoted''] ''promoted'' = ln 2 * (22 / 31)"
  by (simp add: termScore_def termFreq_def bm_mixed_fields Let_def)

lemma score_plain_pos: "0 < docScore bm_mixed [''promoted''] [''sarah'', ''got'', ''promoted'']"
  by (simp add: docScore_def termScore_plain)

lemma score_empty_zero: "docScore bm_mixed [''promoted''] [] = 0"
  by (simp add: docScore_def termScore_def termFreq_def Let_def)


lemma rebuild_mixed:
  "rebuildLexicalIndex index_mixed = index_mixed\<lparr>bm25 := bm_mixed, needsRebuild := False\<rparr>"
  by (simp add: rebuildLexicalIndex_def index_mixed_eq bm_mixed_def unit_vec_def unit_plain_def
      unit_blank_def index_empty_def new_HybridIndex_def)

lemma scores_mixed:
  "bm25_score bm_mixed ''promoted'' =
     [0, docScore bm_mixed [''promoted''] [''sarah'', ''got'', ''promoted'']]"
  by (simp add: bm25_score_def tok_promoted bm_mixed_fields score_empty_zero)

lemma topK_mixed:
  "1 \<le> k \<Longrightarrow> bm25_topK bm_mixed ''promoted'' k =
     [(1, docScore bm_mixed [''promoted''] [''sarah'', ''got'', ''promoted''])]"
proof -
  assume k: "1 \<le> k"
  have z: "zip [0 ..< length (bm25_score bm_mixed ''promoted'')] (bm25_score bm_mixed ''promoted'') =
      [(0, 0), (1, docScore bm_mixed [''promoted''] [''sarah'', ''got'', ''promoted''])]"
    by (simp add: scores_mixed)
  show ?thesis
    unfolding bm25_topK_def Let_def z
    using score_plain_pos k by (simp add: sortByScoreDesc_def slice0_def)
qed

lemma kw_mixed:
  "1 \<le> k \<Longrightarrow> keywordSearch index_mixed ''promoted'' (Some k) =
     ([\<lparr>unit = Some unit_plain, score = score_plain, matchType = Lexical\<rparr>],
      rebuildLexicalIndex index_mixed)"
proof -
  assume k: "1 \<le> k"
  have nr: "needsRebuild index_mixed" by (simp add: index_mixed_eq)
  have us: "map snd (units (rebuildLexicalIndex index_mixed)) = [unit_vec, unit_plain]"
    by (simp add: rebuild_mixed) (simp add: index_mixed_eq)
  have bm: "bm25 (rebuildLexicalIndex index_mixed) = bm_mixed"
    by (simp add: rebuild_mixed)
  show ?thesis
    unfolding keywordSearch_def Let_def using nr k
    by (simp add: us bm topK_mixed score_plain_def)
qed

lemma kw_mixed_default:
  "keywordSearch index_mixed ''promoted'' None =
     ([\<lparr>unit = Some unit_plain, score = score_plain, matchType = Lexical\<rparr>],
      rebuildLexicalIndex index_mixed)"
proof -
  have "keywordSearch index_mixed ''promoted'' None = keywordSearch index_mixed ''promoted'' (Some 5)"
    by (simp add: keywordSearch_def index_mixed_eq index_empty_def new_HybridIndex_def
        DEFAULT_INDEXING_CONFIG_def)
  then show ?thesis by (simp add: kw_mixed)
qed

lemma struct_mixed:
  "structuredSearch dayjs_days index_mixed filter_none None =
     [\<lparr>unit = Some unit_vec, score = 1, matchType = Symbolic\<rparr>,
      \<lparr>unit = Some unit_plain, score = 1, matchType = Symbolic\<rparr>]"
  by (simp add: structuredSearch_def index_mixed_eq index_empty_def new_HybridIndex_def
      DEFAULT_INDEXING_CONFIG_def matchesFilter_def listFails_def rangeFails_def textFails_def
      filter_none_def slice0_def Let_def)

lemma sem_mixed:
  "semanticSearch embed_ones index_mixed ''promoted'' topK =
     Inr (slice0 [\<lparr>unit = Some unit_vec, score = 1, matchType = Semantic\<rparr>]
            (case topK of None \<Rightarrow> 25 | Some t \<Rightarrow> t))"
  by (simp add: semanticSearch_def index_mixed_eq embed_ones_def cosineSimilarity_def
      dotProduct_def Let_def sortByScoreDesc_def unit_vec_def unit_plain_def unit_blank_def
      index_empty_def new_HybridIndex_def DEFAULT_INDEXING_CONFIG_def split: option.splits)


lemma hybrid_mixed:
  "\<exists>rs. fst (hybridSearch embed_ones dayjs_days index_mixed ''promoted'' None None) = Inr rs \<and>
        Some unit_plain \<in> unit ` set rs"
proof -
  define f where "f = hybridResult dayjs_days (rebuildLexicalIndex index_mixed) None
      [(''u1'', 1)] [(''p'', score_plain / math_max1 [score_plain])]"
  have cfg: "semanticTopK (config index_mixed) = 25"
    by (simp add: index_mixed_eq index_empty_def new_HybridIndex_def DEFAULT_INDEXING_CONFIG_def)
  have ids: "unit_id unit_vec = ''u1''" "unit_id unit_plain = ''p''"
    by (simp_all add: unit_vec_def unit_plain_def unit_blank_def)
  have step: "fst (hybridSearch embed_ones dayjs_days index_mixed ''promoted'' None None) =
      Inr (slice0 (sortByScoreDesc score (List.map_filter f [''u1'', ''p''])) 25)"
    unfolding hybridSearch_unfold fst_conv f_def
    by (simp add: cfg sem_mixed kw_mixed slice0_def ids new_Set_def set_add_def
        del: map_filter_simps)
  have us: "units (rebuildLexicalIndex index_mixed) = [(''u1'', unit_vec), (''p'', unit_plain)]"
    by (simp add: rebuild_mixed) (simp add: index_mixed_eq)
  obtain x where v: "f ''u1'' = Some \<lparr>unit = Some unit_vec, score = x, matchType = Hybrid\<rparr>"
    by (simp add: f_def hybridResult_def us Let_def)
  obtain y where p: "f ''p'' = Some \<lparr>unit = Some unit_plain, score = y, matchType = Hybrid\<rparr>"
    by (simp add: f_def hybridResult_def us Let_def)
  let ?hr = "[\<lparr>unit = Some unit_vec, score = x, matchType = Hybrid\<rparr>,
              \<lparr>unit = Some unit_plain, score = y, matchType = Hybrid\<rparr>]"
  have hr: "List.map_filter f [''u1'', ''p''] = ?hr"
    by (simp add: v p)
  have "set (slice0 (sortByScoreDesc score ?hr) 25) = set ?hr"
  proof -
    have "length (sortByScoreDesc score ?hr) = 2"
      by (simp only: sortByScoreDesc_def length_sort) simp
    then have "slice0 (sortByScoreDesc score ?hr) 25 = sortByScoreDesc score ?hr"
      by (simp add: slice0_def)
    then show ?thesis
      by (simp only: sortByScoreDesc_def set_sort)
  qed
  then have "Some unit_plain \<in> unit ` set (slice0 (sortByScoreDesc score ?hr) 25)"
    by simp
  with step hr show ?thesis by simp
qed

text \<open>
  C9: every result of \<^verbatim>\<open>semanticSearch\<close> is a unit with an embedding, and the search
  returns what it returns on the index without the units that have none (they are
  skipped, not an error); and a unit without embedding can be a result of
  \<^verbatim>\<open>keywordSearch\<close>, of \<^verbatim>\<open>structuredSearch\<close> and of \<^verbatim>\<open>hybridSearch\<close>: the plain unit
  of the example index is a result of each.
\<close>

theorem units_without_embedding_in_searches:
  "(\<forall>rs r. semanticSearch emb idx query topK = Inr rs \<and> r \<in> set rs \<longrightarrow>
      (\<exists>u. unit r = Some u \<and> embedding u \<noteq> None)) \<and>
   semanticSearch emb idx query topK =
     semanticSearch emb (idx\<lparr>units := filter (\<lambda>p. hasEmbedding (snd p)) (units idx)\<rparr>) query topK \<and>
   embedding unit_plain = None \<and>
   unit_plain \<in> set (getAllUnits index_mixed) \<and>
   Some unit_plain \<in> unit ` set (fst (keywordSearch index_mixed ''promoted'' None)) \<and>
   Some unit_plain \<in> unit ` set (structuredSearch dayjs_days index_mixed filter_none None) \<and>
   (\<exists>rs. fst (hybridSearch embed_ones dayjs_days index_mixed ''promoted'' None None) = Inr rs \<and>
         Some unit_plain \<in> unit ` set rs)"
proof (intro conjI allI impI)
  fix rs r
  assume "semanticSearch emb idx query topK = Inr rs \<and> r \<in> set rs"
  then show "\<exists>u. unit r = Some u \<and> embedding u \<noteq> None"
    using semanticSearch_embedded by blast
next
  show "semanticSearch emb idx query topK =
     semanticSearch emb (idx\<lparr>units := filter (\<lambda>p. hasEmbedding (snd p)) (units idx)\<rparr>) query topK"
    by (rule semanticSearch_skips)
next
  show "embedding unit_plain = None" by (rule plain_no_embedding)
next
  show "unit_plain \<in> set (getAllUnits index_mixed)"
    by (simp add: getAllUnits_def index_mixed_eq)
next
  show "Some unit_plain \<in> unit ` set (fst (keywordSearch index_mixed ''promoted'' None))"
    by (simp add: kw_mixed_default)
next
  show "Some unit_plain \<in> unit ` set (structuredSearch dayjs_days index_mixed filter_none None)"
    by (simp add: struct_mixed)
next
  show "\<exists>rs. fst (hybridSearch embed_ones dayjs_days index_mixed ''promoted'' None None) = Inr rs \<and>
         Some unit_plain \<in> unit ` set rs"
    by (rule hybrid_mixed)
qed

theorem units_without_embedding_in_searches_witness:
  "semanticSearch embed_ones index_mixed ''promoted'' None =
     Inr [\<lparr>unit = Some unit_vec, score = 1, matchType = Semantic\<rparr>] \<and>
   (\<exists>u. unit \<lparr>unit = Some unit_vec, score = 1, matchType = Semantic\<rparr> = Some u \<and>
        embedding u \<noteq> None) \<and>
   Some unit_plain \<notin> unit ` set [\<lparr>unit = Some unit_vec, score = 1, matchType = Semantic\<rparr>] \<and>
   Some unit_plain \<in> unit ` set (fst (keywordSearch index_mixed ''promoted'' None))"
proof -
  have sem: "semanticSearch embed_ones index_mixed ''promoted'' None =
     Inr [\<lparr>unit = Some unit_vec, score = 1, matchType = Semantic\<rparr>]"
    by (simp add: sem_mixed slice0_def)
  have differ: "unit_plain \<noteq> unit_vec"
    by (simp add: unit_plain_def unit_vec_def unit_blank_def)
  from units_without_embedding_in_searches
    [of embed_ones index_mixed "''promoted''" None]
  show ?thesis
    using sem differ by auto
qed

end
